theory Spec2Isabelle
  imports Main "HOL-Library.Sublist"
begin

section \<open>react-navplus: active-state matching and hover prefetching\<close>

text \<open>
  A shallow embedding of \<^verbatim>\<open>src/utils/matchers.ts\<close>, \<^verbatim>\<open>src/hooks/useIsActive.ts\<close>,
  \<^verbatim>\<open>src/utils/prefetch.ts\<close> and \<^verbatim>\<open>src/hooks/usePrefetch.ts\<close>.

  JavaScript strings are lists of code units, modelled as \<open>string\<close>. A thrown value is
  a \<open>js_exn\<close>; a function that may throw returns \<open>js_exn + 'a\<close>, with \<open>Inl\<close> the
  exception. An optional argument or a property that may be \<^verbatim>\<open>undefined\<close> is an
  \<open>option\<close>.
\<close>

subsection \<open>Values thrown\<close>

datatype js_exn = TypeError string | Thrown string

subsection \<open>String built-ins used by the matchers\<close>

text \<open>
  \<^verbatim>\<open>String.prototype.startsWith(searchString)\<close> with position 0: false when the search
  string is longer than the receiver, else the comparison of the leading code units.
\<close>

definition startsWith :: "string \<Rightarrow> string \<Rightarrow> bool" where
  "startsWith s searchString =
     (if length s < length searchString then False
      else take (length searchString) s = searchString)"

text \<open>
  \<^verbatim>\<open>String.prototype.includes\<close> is \<^verbatim>\<open>indexOf(searchString, 0) !== -1\<close>. The search loop
  tries every start position from the left; \<open>i\<close> is the position of the remaining
  suffix in the receiver, and the empty search string is found at the end as well.
\<close>

fun StringIndexOf :: "string \<Rightarrow> string \<Rightarrow> nat \<Rightarrow> nat option" where
  "StringIndexOf [] searchString i = (if searchString = [] then Some i else None)"
| "StringIndexOf (c # cs) searchString i =
     (if startsWith (c # cs) searchString then Some i
      else StringIndexOf cs searchString (Suc i))"

definition includes_str :: "string \<Rightarrow> string \<Rightarrow> bool" where
  "includes_str s searchString = (StringIndexOf s searchString 0 \<noteq> None)"

subsection \<open>matchers.ts\<close>

text \<open>
  A \<^verbatim>\<open>RegExp\<close> enters the code only through \<^verbatim>\<open>pattern.test(pathname)\<close>, so it is
  modelled by that predicate.
\<close>

type_synonym regexp = "string \<Rightarrow> bool"

type_synonym matcher = "string \<Rightarrow> string \<Rightarrow> regexp option \<Rightarrow> bool"

text \<open>\<^verbatim>\<open>new Map(entries)\<close>: the entries are set from left to right.\<close>

definition Map_of_entries :: "('k \<times> 'v) list \<Rightarrow> ('k \<rightharpoonup> 'v)" where
  "Map_of_entries entries = fold (\<lambda>(k, v) m. m(k \<mapsto> v)) entries Map.empty"

definition matchers :: "string \<rightharpoonup> matcher" where
  "matchers = Map_of_entries
     [(''exact'', \<lambda>pathname url pat. pathname = url),
      (''startsWith'', \<lambda>pathname url pat. startsWith pathname url),
      (''includes'', \<lambda>pathname url pat. includes_str pathname url),
      (''pattern'', \<lambda>pathname url pat.
          (case pat of Some p \<Rightarrow> p pathname | None \<Rightarrow> False))]"

text \<open>
  \<^verbatim>\<open>cleanUrl\<close>: the root path for an empty or missing argument, else the argument with
  a leading slash.
\<close>

definition cleanUrl :: "string option \<Rightarrow> string" where
  "cleanUrl url =
     (case url of
        None \<Rightarrow> ''/''
      | Some u \<Rightarrow> if u = [] then ''/'' else if startsWith u ''/'' then u else ''/'' @ u)"

text \<open>
  \<^verbatim>\<open>isActive\<close>: \<open>matchMode = None\<close> is the omitted argument, which takes the default
  \<^verbatim>\<open>'includes'\<close>. \<^verbatim>\<open>matchers.get(matchMode) || matchers.get('includes')\<close> is called
  through a non-null assertion: calling \<^verbatim>\<open>undefined\<close> would raise a TypeError.
\<close>

definition isActive ::
  "string \<Rightarrow> string \<Rightarrow> string option \<Rightarrow> regexp option \<Rightarrow> js_exn + bool" where
  "isActive pathname url matchMode matchPattern =
     (let mode = (case matchMode of None \<Rightarrow> ''includes'' | Some m \<Rightarrow> m);
          matchFn = (case matchers mode of Some f \<Rightarrow> Some f | None \<Rightarrow> matchers ''includes'')
      in case matchFn of
           None \<Rightarrow> Inl (TypeError ''matchFn is not a function'')
         | Some f \<Rightarrow> Inr (f pathname url matchPattern))"

text \<open>
  \<^verbatim>\<open>isActiveWithCustomFn\<close>: the caller's function is applied; what it throws is thrown.
\<close>

type_synonym active_func = "string \<Rightarrow> string \<Rightarrow> js_exn + bool"

definition isActiveWithCustomFn :: "string \<Rightarrow> string \<Rightarrow> active_func \<Rightarrow> js_exn + bool" where
  "isActiveWithCustomFn pathname url isActiveFunc = isActiveFunc pathname url"

subsection \<open>The reference definition of the match modes\<close>

text \<open>
  The modes as the specification words them: equality, \<open>prefix\<close> (the path begins with
  the target), \<open>sublist\<close> (the target occurs in the path as a contiguous run), the
  pattern's test, and the \<open>includes\<close> reading for every other mode.
\<close>

definition isActive_reference :: "string \<Rightarrow> string \<Rightarrow> string \<Rightarrow> regexp option \<Rightarrow> bool" where
  "isActive_reference currentPath targetPath mode pat =
     (if mode = ''exact'' then currentPath = targetPath
      else if mode = ''startsWith'' then prefix targetPath currentPath
      else if mode = ''includes'' then sublist targetPath currentPath
      else if mode = ''pattern'' then (case pat of Some p \<Rightarrow> p currentPath | None \<Rightarrow> False)
      else sublist targetPath currentPath)"

subsection \<open>useIsActive.ts\<close>

text \<open>
  The hook's options. \<open>location = None\<close> is an absent location object, \<open>Some p\<close> a
  location whose \<^verbatim>\<open>pathname\<close> is \<open>p\<close>. The value is the one computed by the memoised
  callback; a falsy string is the empty one.
\<close>

record useIsActive_options =
  location :: "string option"
  matchMode :: "string option"
  matchPattern :: "regexp option"
  customActiveUrl :: "string option"
  isActiveFunc :: "active_func option"

definition useIsActive :: "string \<Rightarrow> useIsActive_options \<Rightarrow> js_exn + bool" where
  "useIsActive to opts =
     (case location opts of
        None \<Rightarrow> Inr False
      | Some pathname \<Rightarrow>
          if pathname = [] then Inr False
          else
            let urlToMatch =
                  (case customActiveUrl opts of
                     None \<Rightarrow> to
                   | Some c \<Rightarrow> if c = [] then to else c)
            in case isActiveFunc opts of
                 Some f \<Rightarrow> isActiveWithCustomFn pathname urlToMatch f
               | None \<Rightarrow>
                   isActive pathname urlToMatch
                     (Some (case matchMode opts of None \<Rightarrow> ''includes'' | Some m \<Rightarrow> m))
                     (matchPattern opts))"

subsection \<open>types.ts: prefetch options and router context\<close>

text \<open>
  A callback \<^verbatim>\<open>(to: string) => void\<close> either returns (\<open>None\<close>) or throws (\<open>Some e\<close>);
  that it was called is recorded by the caller as an effect.
\<close>

type_synonym callback = "string \<Rightarrow> js_exn option"

text \<open>
  A property of an object literal: not an own property, or an own property holding a
  value or \<^verbatim>\<open>undefined\<close>. Reading an absent property gives \<^verbatim>\<open>undefined\<close>; an object
  spread copies own properties only, the later object winning.
\<close>

datatype 'a property = Absent | Own "'a option"

fun read :: "'a property \<Rightarrow> 'a option" where
  "read Absent = None"
| "read (Own v) = v"

fun spread_prop :: "'a property \<Rightarrow> 'a property \<Rightarrow> 'a property" where
  "spread_prop a Absent = a"
| "spread_prop a (Own v) = Own v"

record PrefetchOptions =
  enabled :: "bool property"
  delay :: "int property"
  routerType :: "string property"
  customPrefetch :: "callback property"

text \<open>\<^verbatim>\<open>{ ...a, ...b }\<close> on objects of this shape.\<close>

definition spread :: "PrefetchOptions \<Rightarrow> PrefetchOptions \<Rightarrow> PrefetchOptions" where
  "spread a b =
     \<lparr>enabled = spread_prop (enabled a) (enabled b),
      delay = spread_prop (delay a) (delay b),
      routerType = spread_prop (routerType a) (routerType b),
      customPrefetch = spread_prop (customPrefetch a) (customPrefetch b)\<rparr>"

text \<open>The object with no own property: what spreading \<^verbatim>\<open>undefined\<close> contributes.\<close>

definition no_properties :: PrefetchOptions where
  "no_properties = \<lparr>enabled = Absent, delay = Absent, routerType = Absent, customPrefetch = Absent\<rparr>"

datatype router = Router "callback option"

datatype router_context = RouterContext "router option"

datatype TanStackRouterGlobal = TanStackRouterGlobal "router option"

text \<open>\<^verbatim>\<open>routerContext?.router?.prefetch\<close> and \<^verbatim>\<open>window.TanStackRouter?.router?.prefetch\<close>.\<close>

fun context_prefetch :: "router_context option \<Rightarrow> callback option" where
  "context_prefetch (Some (RouterContext (Some (Router f)))) = f"
| "context_prefetch _ = None"

fun global_prefetch :: "TanStackRouterGlobal option \<Rightarrow> callback option" where
  "global_prefetch (Some (TanStackRouterGlobal (Some (Router f)))) = f"
| "global_prefetch _ = None"

subsection \<open>prefetch.ts\<close>

definition defaultPrefetchOptions :: PrefetchOptions where
  "defaultPrefetchOptions =
     \<lparr>enabled = Own (Some True), delay = Own (Some 200),
      routerType = Own (Some ''react-router''), customPrefetch = Absent\<rparr>"

datatype prefetch_prop = PrefetchBool bool | PrefetchObject PrefetchOptions | PrefetchUndefined

definition normalizePrefetchOptions :: "prefetch_prop \<Rightarrow> PrefetchOptions" where
  "normalizePrefetchOptions p =
     (case p of
        PrefetchBool b \<Rightarrow> (spread defaultPrefetchOptions no_properties)\<lparr>enabled := Own (Some b)\<rparr>
      | PrefetchObject obj \<Rightarrow> spread defaultPrefetchOptions obj
      | PrefetchUndefined \<Rightarrow> spread defaultPrefetchOptions no_properties)"

text \<open>
  What \<open>executePrefetch\<close> reads from its surroundings: the build mode
  (\<^verbatim>\<open>process.env.NODE_ENV === 'production'\<close>), \<^verbatim>\<open>window.location.origin\<close>, the URL
  constructor as \<^verbatim>\<open>new URL(url, base).origin\<close> (it throws a TypeError on a string it
  cannot parse), and the global \<^verbatim>\<open>window.TanStackRouter\<close>. The document is the browser's:
  \<^verbatim>\<open>createElement('link')\<close> and \<^verbatim>\<open>document.head.appendChild\<close> do not throw.
\<close>

record env =
  production :: bool
  location_origin :: string
  URL_origin :: "string \<Rightarrow> string \<Rightarrow> js_exn + string"
  TanStackRouter :: "TanStackRouterGlobal option"

record link_element =
  rel :: string
  href :: string
  as_attr :: string

text \<open>What \<open>executePrefetch\<close> does to its surroundings, in order.\<close>

datatype effect =
    AppendChild link_element
  | CallCustomPrefetch string
  | CallContextPrefetch string
  | CallGlobalPrefetch string
  | ConsoleWarn string
  | ConsoleLog string
  | ConsoleError string js_exn

text \<open>How the \<^verbatim>\<open>switch\<close> inside the \<^verbatim>\<open>try\<close> block ends.\<close>

datatype completion = Break | Return bool | Throw js_exn

text \<open>A fresh \<^verbatim>\<open>link\<close> element with \<^verbatim>\<open>rel\<close>, \<^verbatim>\<open>href\<close> and \<^verbatim>\<open>as\<close> assigned.\<close>

definition prefetch_link :: "string \<Rightarrow> link_element" where
  "prefetch_link url = \<lparr>rel = ''prefetch'', href = url, as_attr = ''document''\<rparr>"

definition preconnect_link :: "string \<Rightarrow> link_element" where
  "preconnect_link origin = \<lparr>rel = ''preconnect'', href = origin, as_attr = []\<rparr>"

definition router_prefetch_call ::
  "(string \<Rightarrow> effect) \<Rightarrow> callback \<Rightarrow> string \<Rightarrow> effect list \<times> completion" where
  "router_prefetch_call called f url =
     ([called url], (case f url of None \<Rightarrow> Break | Some x \<Rightarrow> Throw x))"

definition switch_routerType ::
  "env \<Rightarrow> string \<Rightarrow> string \<Rightarrow> router_context option \<Rightarrow> effect list \<times> completion" where
  "switch_routerType e url rtype ctx =
     (if rtype = ''react-router'' then
        (case URL_origin e url (location_origin e) of
           Inl x \<Rightarrow> ([AppendChild (prefetch_link url)], Throw x)
         | Inr origin \<Rightarrow>
             ([AppendChild (prefetch_link url), AppendChild (preconnect_link origin)], Break))
      else if rtype = ''tanstack-router'' then
        (case context_prefetch ctx of
           Some f \<Rightarrow> router_prefetch_call CallContextPrefetch f url
         | None \<Rightarrow>
             (case global_prefetch (TanStackRouter e) of
                Some g \<Rightarrow> router_prefetch_call CallGlobalPrefetch g url
              | None \<Rightarrow>
                  ([ConsoleWarn ''TanStack Router prefetch: router instance not found''],
                   Return False)))
      else if rtype = ''wouter'' then ([AppendChild (prefetch_link url)], Break)
      else ([AppendChild (prefetch_link url)], Break))"

text \<open>
  \<open>executePrefetch\<close> returns the effects it performed and either the boolean it returned
  or the exception that left it.
\<close>

definition executePrefetch ::
  "env \<Rightarrow> string \<Rightarrow> string \<Rightarrow> bool \<Rightarrow> router_context option \<Rightarrow> callback option
     \<Rightarrow> effect list \<times> (js_exn + bool)" where
  "executePrefetch e url rtype external ctx custom =
     (if external then ([], Inr False)
      else if rtype = ''custom'' \<and> custom \<noteq> None then
        (case custom of
           Some f \<Rightarrow>
             ([CallCustomPrefetch url], (case f url of None \<Rightarrow> Inr True | Some x \<Rightarrow> Inl x))
         | None \<Rightarrow> ([], Inr False))
      else
        (case switch_routerType e url rtype ctx of
           (effs, Throw x) \<Rightarrow>
             (effs @ (if production e then []
                      else [ConsoleError (''Error prefetching '' @ url @ '':'') x]),
              Inr False)
         | (effs, Return b) \<Rightarrow> (effs, Inr b)
         | (effs, Break) \<Rightarrow>
             (effs @ (if production e then []
                      else [ConsoleLog (''Prefetched: '' @ url @ '' using '' @ rtype)]),
              Inr True)))"

subsection \<open>usePrefetch.ts\<close>

text \<open>
  The hook's options after destructuring. The session of one link instance holds the
  \<^verbatim>\<open>isPrefetched\<close> state, the timeout ref, and the part of the host's timer table that
  this instance armed: a pending timer carries its handle, its delay and the values its
  callback closes over. Handles are the host's positive integers, so every handle is
  truthy; \<open>next_handle\<close> is the next one the host gives out. The session also
  accumulates the effects of the dispatches made and counts them.

  The field \<open>isPrefetched\<close> of the session is the current value of the React state. Each
  render reads it into a constant, and the \<open>handlePrefetch\<close> of that render is a
  \<^verbatim>\<open>useCallback\<close> closure over that constant: the handler tests the value its render
  captured, not the current one. The handler of the latest render of a session \<open>s\<close> has
  captured \<open>isPrefetched s\<close>; a handler kept from a render before a successful dispatch
  has captured false, also after the state has become true. The timeout ref is one object
  shared by all renders.
\<close>

record usePrefetch_options =
  prefetch :: prefetch_prop
  isExternal :: bool
  redirection :: bool
  disabled :: bool
  routerContext :: "router_context option"

record timer =
  handle :: nat
  timeout :: int
  closure_to :: string
  closure_options :: usePrefetch_options

record session =
  isPrefetched :: bool
  prefetchTimeoutRef :: "nat option"
  next_handle :: nat
  pending :: "timer list"
  effects :: "effect list"
  dispatches :: nat

text \<open>A freshly mounted instance, on a host whose last handle given out was \<open>n\<close>.\<close>

definition mount :: "nat \<Rightarrow> session" where
  "mount n =
     \<lparr>isPrefetched = False, prefetchTimeoutRef = None, next_handle = Suc n,
      pending = [], effects = [], dispatches = 0\<rparr>"

definition setTimeout :: "string \<Rightarrow> usePrefetch_options \<Rightarrow> int \<Rightarrow> session \<Rightarrow> nat \<times> session" where
  "setTimeout to opts ms s =
     (next_handle s,
      s\<lparr>pending := pending s @
            [\<lparr>handle = next_handle s, timeout = ms, closure_to = to, closure_options = opts\<rparr>],
        next_handle := Suc (next_handle s)\<rparr>)"

definition clearTimeout :: "nat \<Rightarrow> session \<Rightarrow> session" where
  "clearTimeout h s = s\<lparr>pending := filter (\<lambda>t. handle t \<noteq> h) (pending s)\<rparr>"

text \<open>\<^verbatim>\<open>if (prefetchTimeoutRef.current) clearTimeout(prefetchTimeoutRef.current)\<close>.\<close>

definition clear_ref :: "session \<Rightarrow> session" where
  "clear_ref s =
     (case prefetchTimeoutRef s of
        None \<Rightarrow> s
      | Some h \<Rightarrow> if h \<noteq> 0 then clearTimeout h s else s)"

text \<open>
  The guard of \<open>handlePrefetch\<close>: when it holds the handler returns at once. \<open>captured\<close>
  is the \<^verbatim>\<open>isPrefetched\<close> constant of the render that created the handler.
\<close>

definition prefetch_guard :: "usePrefetch_options \<Rightarrow> bool \<Rightarrow> bool" where
  "prefetch_guard opts captured =
     (let prefetchOptions = normalizePrefetchOptions (prefetch opts)
      in read (enabled prefetchOptions) \<noteq> Some True \<or> isExternal opts \<or> \<not> redirection opts
         \<or> disabled opts \<or> captured)"

text \<open>\<^verbatim>\<open>prefetchOptions.delay || 200\<close> and \<^verbatim>\<open>prefetchOptions.routerType || 'react-router'\<close>.\<close>

definition delay_or_default :: "PrefetchOptions \<Rightarrow> int" where
  "delay_or_default prefetchOptions =
     (case read (delay prefetchOptions) of
        None \<Rightarrow> 200
      | Some d \<Rightarrow> if d = 0 then 200 else d)"

definition routerType_or_default :: "PrefetchOptions \<Rightarrow> string" where
  "routerType_or_default prefetchOptions =
     (case read (routerType prefetchOptions) of
        None \<Rightarrow> ''react-router''
      | Some r \<Rightarrow> if r = [] then ''react-router'' else r)"

definition handlePrefetch ::
  "string \<Rightarrow> usePrefetch_options \<Rightarrow> bool \<Rightarrow> session \<Rightarrow> session" where
  "handlePrefetch to opts captured s =
     (if prefetch_guard opts captured then s
      else
        let s1 = clear_ref s;
            (h, s2) = setTimeout to opts
                        (delay_or_default (normalizePrefetchOptions (prefetch opts))) s1
        in s2\<lparr>prefetchTimeoutRef := Some h\<rparr>)"

definition cancelPrefetch :: "session \<Rightarrow> session" where
  "cancelPrefetch s = clear_ref s"

text \<open>The cleanup of the mount effect, run when the instance unmounts.\<close>

definition unmount_cleanup :: "session \<Rightarrow> session" where
  "unmount_cleanup s = clear_ref s"

text \<open>
  The timer callback: one dispatch with the values closed over; \<open>isPrefetched\<close> is set
  when \<open>executePrefetch\<close> returned true. An exception leaving \<open>executePrefetch\<close> leaves
  the callback too, before the state is set.
\<close>

definition dispatch :: "env \<Rightarrow> timer \<Rightarrow> effect list \<times> (js_exn + bool)" where
  "dispatch e t =
     (let opts = closure_options t;
          prefetchOptions = normalizePrefetchOptions (prefetch opts)
      in executePrefetch e (closure_to t) (routerType_or_default prefetchOptions)
           (isExternal opts) (routerContext opts) (read (customPrefetch prefetchOptions)))"

definition timer_callback :: "env \<Rightarrow> timer \<Rightarrow> session \<Rightarrow> session" where
  "timer_callback e t s =
     (let (effs, success) = dispatch e t;
          s1 = s\<lparr>effects := effects s @ effs, dispatches := Suc (dispatches s)\<rparr>
      in if success = Inr True then s1\<lparr>isPrefetched := True\<rparr> else s1)"

text \<open>
  The host runs the callback of a timer whose delay has elapsed, if the timer is still
  pending, and drops it from the table. A handle that is not pending does nothing.
\<close>

definition timer_fires :: "env \<Rightarrow> nat \<Rightarrow> session \<Rightarrow> session" where
  "timer_fires e h s =
     (case find (\<lambda>t. handle t = h) (pending s) of
        None \<Rightarrow> s
      | Some t \<Rightarrow> timer_callback e t (clearTimeout h s))"

text \<open>
  What can happen to a session, and a run of such events. A start names the handler called:
  the target and options of its render and the \<^verbatim>\<open>isPrefetched\<close> value that render
  captured. Since the state only ever goes from false to true, a render can have captured
  true only if the state is true; a start with captured true on a session whose state is
  false is guarded and changes nothing, so admitting it adds no reachable session.
\<close>

datatype event =
    HandlePrefetch string usePrefetch_options bool
  | CancelPrefetch
  | Unmount
  | TimerFires nat

fun step :: "env \<Rightarrow> event \<Rightarrow> session \<Rightarrow> session" where
  "step e (HandlePrefetch to opts captured) s = handlePrefetch to opts captured s"
| "step e CancelPrefetch s = cancelPrefetch s"
| "step e Unmount s = unmount_cleanup s"
| "step e (TimerFires h) s = timer_fires e h s"

definition run :: "env \<Rightarrow> event list \<Rightarrow> session \<Rightarrow> session" where
  "run e evs s = fold (step e) evs s"

fun is_start :: "event \<Rightarrow> bool" where
  "is_start (HandlePrefetch to opts captured) = True"
| "is_start _ = False"

text \<open>A start through a handler whose render captured \<^verbatim>\<open>isPrefetched\<close> false.\<close>

fun unprefetched_start :: "event \<Rightarrow> bool" where
  "unprefetched_start (HandlePrefetch to opts captured) = (\<not> captured)"
| "unprefetched_start _ = False"

text \<open>
  What holds of a session at every moment: at most one timer is pending, it is the one
  the ref points to, and its handle is positive.
\<close>

definition session_inv :: "session \<Rightarrow> bool" where
  "session_inv s \<longleftrightarrow>
     (case pending s of
        [] \<Rightarrow> True
      | [t] \<Rightarrow> prefetchTimeoutRef s = Some (handle t) \<and> 0 < handle t
      | _ \<Rightarrow> False)
     \<and> 0 < next_handle s"

text \<open>Hover options of the examples: prefetching on, and the same link disabled.\<close>

definition hover_options :: usePrefetch_options where
  "hover_options =
     \<lparr>prefetch = PrefetchBool True, isExternal = False, redirection = True,
      disabled = False, routerContext = None\<rparr>"

definition disabled_options :: usePrefetch_options where
  "disabled_options = hover_options\<lparr>disabled := True\<rparr>"

text \<open>The hints registered with the document among a list of effects.\<close>

fun hints :: "effect list \<Rightarrow> link_element list" where
  "hints [] = []"
| "hints (AppendChild l # es) = l # hints es"
| "hints (_ # es) = hints es"

text \<open>The capabilities called among a list of effects.\<close>

fun calls :: "effect list \<Rightarrow> effect list" where
  "calls [] = []"
| "calls (CallCustomPrefetch u # es) = CallCustomPrefetch u # calls es"
| "calls (CallContextPrefetch u # es) = CallContextPrefetch u # calls es"
| "calls (CallGlobalPrefetch u # es) = CallGlobalPrefetch u # calls es"
| "calls (_ # es) = calls es"

subsection \<open>Surroundings used in the examples\<close>

text \<open>
  A page served from \<^verbatim>\<open>http://localhost\<close> with no global router. Of the URL constructor
  two facts are used: the scheme-relative reference \<^verbatim>\<open>//\<close> has an empty host, so
  \<^verbatim>\<open>new URL('//', base)\<close> throws a TypeError; a path-absolute reference such as
  \<^verbatim>\<open>/dashboard\<close> has the origin of its base.
\<close>

definition example_URL_origin :: "string \<Rightarrow> string \<Rightarrow> js_exn + string" where
  "example_URL_origin url base =
     (if url = ''//'' then Inl (TypeError ''Invalid URL'') else Inr base)"

definition development_env :: env where
  "development_env =
     \<lparr>production = False, location_origin = ''http://localhost'',
      URL_origin = example_URL_origin, TanStackRouter = None\<rparr>"

definition production_env :: env where
  "production_env = development_env\<lparr>production := True\<rparr>"

text \<open>A router capability that throws, and one that returns.\<close>

definition throwing_callback :: callback where
  "throwing_callback url = Some (Thrown ''prefetch failed'')"

definition returning_callback :: callback where
  "returning_callback url = None"

definition context_with :: "callback \<Rightarrow> router_context option" where
  "context_with f = Some (RouterContext (Some (Router (Some f))))"

definition global_env :: env where
  "global_env =
     development_env\<lparr>TanStackRouter :=
       Some (TanStackRouterGlobal (Some (Router (Some returning_callback))))\<rparr>"

text \<open>Custom active functions: one that throws, and the one of the tests.\<close>

definition throwing_active_func :: active_func where
  "throwing_active_func pathname url = Inl (Thrown ''isActiveFunc failed'')"

definition always_active :: active_func where
  "always_active pathname url = Inr True"

subsection \<open>The string built-ins meet their descriptions\<close>

lemma startsWith_prefix: "startsWith s t \<longleftrightarrow> prefix t s"
proof
  assume "startsWith s t"
  then have "take (length t) s = t"
    by (simp add: startsWith_def split: if_splits)
  then show "prefix t s"
    by (metis take_is_prefix)
next
  assume "prefix t s"
  then obtain r where "s = t @ r"
    by (auto simp: prefix_def)
  then show "startsWith s t"
    by (simp add: startsWith_def)
qed

lemma StringIndexOf_None: "StringIndexOf s t i = None \<longleftrightarrow> \<not> sublist t s"
proof (induction s arbitrary: i)
  case Nil
  show ?case by simp
next
  case (Cons c cs)
  show ?case
    by (simp add: Cons.IH startsWith_prefix sublist_Cons_right)
qed

lemma includes_str_sublist: "includes_str s t \<longleftrightarrow> sublist t s"
  by (simp add: includes_str_def StringIndexOf_None)

lemma matchers_exact: "matchers ''exact'' = Some (\<lambda>pathname url pat. pathname = url)"
  by (simp add: matchers_def Map_of_entries_def)

lemma matchers_startsWith:
  "matchers ''startsWith'' = Some (\<lambda>pathname url pat. startsWith pathname url)"
  by (simp add: matchers_def Map_of_entries_def)

lemma matchers_includes:
  "matchers ''includes'' = Some (\<lambda>pathname url pat. includes_str pathname url)"
  by (simp add: matchers_def Map_of_entries_def)

lemma matchers_pattern:
  "matchers ''pattern'' =
     Some (\<lambda>pathname url pat. (case pat of Some p \<Rightarrow> p pathname | None \<Rightarrow> False))"
  by (simp add: matchers_def Map_of_entries_def)

lemma matchers_other:
  "m \<noteq> ''exact'' \<Longrightarrow> m \<noteq> ''startsWith'' \<Longrightarrow> m \<noteq> ''includes'' \<Longrightarrow> m \<noteq> ''pattern'' \<Longrightarrow>
   matchers m = None"
  by (simp add: matchers_def Map_of_entries_def)

lemma isActive_includes:
  "isActive p t (Some ''includes'') pat = Inr (includes_str p t)"
  by (simp add: isActive_def matchers_includes)

lemma isActive_other:
  "m \<noteq> ''exact'' \<Longrightarrow> m \<noteq> ''startsWith'' \<Longrightarrow> m \<noteq> ''includes'' \<Longrightarrow> m \<noteq> ''pattern'' \<Longrightarrow>
   isActive p t (Some m) pat = Inr (includes_str p t)"
  by (simp add: isActive_def matchers_other matchers_includes)

lemma isActive_omitted: "isActive p t None pat = Inr (includes_str p t)"
  by (simp add: isActive_def matchers_includes)

text \<open>
  Claim C1. For every current path, target path, mode and optional pattern, \<open>isActive\<close>
  returns a boolean and never raises, and the boolean is the reference definition of the
  mode: equality for \<^verbatim>\<open>exact\<close>, the path beginning with the target for
  \<^verbatim>\<open>startsWith\<close>, the target occurring in the path for \<^verbatim>\<open>includes\<close>, the pattern's
  test (false without a pattern) for \<^verbatim>\<open>pattern\<close>; every mode outside these four, and
  an omitted mode, gives the result of \<^verbatim>\<open>includes\<close>.
\<close>

theorem isActive_meets_reference:
  "isActive currentPath targetPath (Some mode) pat
     = Inr (isActive_reference currentPath targetPath mode pat)
   \<and> (mode \<notin> {''exact'', ''startsWith'', ''includes'', ''pattern''} \<longrightarrow>
        isActive currentPath targetPath (Some mode) pat
          = isActive currentPath targetPath (Some ''includes'') pat)
   \<and> isActive currentPath targetPath None pat
       = isActive currentPath targetPath (Some ''includes'') pat"
proof -
  have omitted: "isActive currentPath targetPath None pat
      = isActive currentPath targetPath (Some ''includes'') pat"
    by (simp add: isActive_omitted isActive_includes)
  consider (exact) "mode = ''exact''" | (starts) "mode = ''startsWith''"
    | (incl) "mode = ''includes''" | (pat) "mode = ''pattern''"
    | (other) "mode \<noteq> ''exact''" "mode \<noteq> ''startsWith''" "mode \<noteq> ''includes''"
        "mode \<noteq> ''pattern''"
    by blast
  then show ?thesis
  proof cases
    case exact
    with omitted show ?thesis
      by (simp add: isActive_def matchers_exact isActive_reference_def)
  next
    case starts
    with omitted show ?thesis
      by (simp add: isActive_def matchers_startsWith isActive_reference_def startsWith_prefix)
  next
    case incl
    with omitted show ?thesis
      by (simp add: isActive_includes isActive_reference_def includes_str_sublist)
  next
    case pat
    with omitted show ?thesis
      by (simp add: isActive_def matchers_pattern isActive_reference_def)
  next
    case other
    with omitted show ?thesis
      by (simp add: isActive_other isActive_includes isActive_reference_def includes_str_sublist)
  qed
qed

theorem isActive_meets_reference_witness:
  "''invalid'' \<notin> {''exact'', ''startsWith'', ''includes'', ''pattern''}
   \<and> isActive ''/my/home/page'' ''/home'' (Some ''invalid'') None = Inr True
   \<and> isActive ''/my/home/page'' ''/home'' (Some ''invalid'') None
       = isActive ''/my/home/page'' ''/home'' (Some ''includes'') None"
proof -
  have m: "''invalid'' \<notin> {''exact'', ''startsWith'', ''includes'', ''pattern''}"
    by simp
  have r: "isActive_reference ''/my/home/page'' ''/home'' ''invalid'' None"
    by (simp add: isActive_reference_def sublist_Cons_right)
  note inst = isActive_meets_reference [of "''/my/home/page''" "''/home''" "''invalid''" None]
  from inst r have a: "isActive ''/my/home/page'' ''/home'' (Some ''invalid'') None = Inr True"
    by simp
  from inst m have b: "isActive ''/my/home/page'' ''/home'' (Some ''invalid'') None
      = isActive ''/my/home/page'' ''/home'' (Some ''includes'') None"
    by blast
  from m a b show ?thesis
    by blast
qed

subsection \<open>normalizePrefetchOptions\<close>

lemma spread_no_properties: "spread a no_properties = a"
  by (simp add: spread_def no_properties_def)

lemma spread_prop_cases:
  "spread_prop a b = (case b of Absent \<Rightarrow> a | Own v \<Rightarrow> Own v)"
  by (cases b) simp_all

lemma spread_prop_not_Absent: "a \<noteq> Absent \<Longrightarrow> spread_prop a b \<noteq> Absent"
  by (cases b) simp_all

lemma normalize_enabled_own: "enabled (normalizePrefetchOptions p) \<noteq> Absent"
  by (cases p)
    (simp_all add: normalizePrefetchOptions_def spread_def defaultPrefetchOptions_def
      spread_prop_not_Absent)

lemma normalize_delay_own: "delay (normalizePrefetchOptions p) \<noteq> Absent"
  by (cases p)
    (simp_all add: normalizePrefetchOptions_def spread_def defaultPrefetchOptions_def
      spread_prop_not_Absent)

lemma normalize_routerType_own: "routerType (normalizePrefetchOptions p) \<noteq> Absent"
  by (cases p)
    (simp_all add: normalizePrefetchOptions_def spread_def defaultPrefetchOptions_def
      spread_prop_not_Absent)

text \<open>
  Claim C7. \<open>normalizePrefetchOptions\<close> maps every input to a record over the defaults
  \<^verbatim>\<open>{enabled: true, delay: 200, routerType: 'react-router'}\<close>: a boolean gives the defaults
  with only \<^verbatim>\<open>enabled\<close> replaced by it; \<^verbatim>\<open>undefined\<close> gives the defaults; an object gives
  the defaults merged with it property by property, an absent property keeping its
  default and an own property overriding it; and the three default properties are own
  properties of every result.
\<close>

theorem normalizePrefetchOptions_merges_over_defaults:
  "normalizePrefetchOptions (PrefetchBool b)
     = \<lparr>enabled = Own (Some b), delay = Own (Some 200),
        routerType = Own (Some ''react-router''), customPrefetch = Absent\<rparr>
   \<and> normalizePrefetchOptions PrefetchUndefined = defaultPrefetchOptions
   \<and> defaultPrefetchOptions
     = \<lparr>enabled = Own (Some True), delay = Own (Some 200),
        routerType = Own (Some ''react-router''), customPrefetch = Absent\<rparr>
   \<and> enabled (normalizePrefetchOptions (PrefetchObject obj))
     = (case enabled obj of Absent \<Rightarrow> Own (Some True) | Own v \<Rightarrow> Own v)
   \<and> delay (normalizePrefetchOptions (PrefetchObject obj))
     = (case delay obj of Absent \<Rightarrow> Own (Some 200) | Own v \<Rightarrow> Own v)
   \<and> routerType (normalizePrefetchOptions (PrefetchObject obj))
     = (case routerType obj of Absent \<Rightarrow> Own (Some ''react-router'') | Own v \<Rightarrow> Own v)
   \<and> customPrefetch (normalizePrefetchOptions (PrefetchObject obj)) = customPrefetch obj
   \<and> enabled (normalizePrefetchOptions p) \<noteq> Absent
   \<and> delay (normalizePrefetchOptions p) \<noteq> Absent
   \<and> routerType (normalizePrefetchOptions p) \<noteq> Absent"
proof -
  have bool: "normalizePrefetchOptions (PrefetchBool b)
     = \<lparr>enabled = Own (Some b), delay = Own (Some 200),
        routerType = Own (Some ''react-router''), customPrefetch = Absent\<rparr>"
    by (simp add: normalizePrefetchOptions_def spread_no_properties defaultPrefetchOptions_def)
  have undef: "normalizePrefetchOptions PrefetchUndefined = defaultPrefetchOptions"
    by (simp add: normalizePrefetchOptions_def spread_no_properties)
  have obj: "normalizePrefetchOptions (PrefetchObject obj) = spread defaultPrefetchOptions obj"
    by (simp add: normalizePrefetchOptions_def)
  have custom: "customPrefetch (spread defaultPrefetchOptions obj) = customPrefetch obj"
    by (cases "customPrefetch obj") (simp_all add: spread_def defaultPrefetchOptions_def)
  show ?thesis
    using bool undef custom normalize_enabled_own [of p] normalize_delay_own [of p]
      normalize_routerType_own [of p]
    by (simp add: obj spread_def defaultPrefetchOptions_def spread_prop_cases)
qed

theorem normalizePrefetchOptions_merges_over_defaults_witness:
  "normalizePrefetchOptions (PrefetchBool False)
     = \<lparr>enabled = Own (Some False), delay = Own (Some 200),
        routerType = Own (Some ''react-router''), customPrefetch = Absent\<rparr>
   \<and> enabled (normalizePrefetchOptions (PrefetchObject
        \<lparr>enabled = Absent, delay = Own (Some 100),
         routerType = Own (Some ''tanstack-router''), customPrefetch = Absent\<rparr>))
     = Own (Some True)
   \<and> delay (normalizePrefetchOptions (PrefetchObject
        \<lparr>enabled = Absent, delay = Own (Some 100),
         routerType = Own (Some ''tanstack-router''), customPrefetch = Absent\<rparr>))
     = Own (Some 100)
   \<and> routerType (normalizePrefetchOptions (PrefetchObject
        \<lparr>enabled = Absent, delay = Own (Some 100),
         routerType = Own (Some ''tanstack-router''), customPrefetch = Absent\<rparr>))
     = Own (Some ''tanstack-router'')"
  using normalizePrefetchOptions_merges_over_defaults
    [of False "\<lparr>enabled = Absent, delay = Own (Some 100),
         routerType = Own (Some ''tanstack-router''), customPrefetch = Absent\<rparr>"
        PrefetchUndefined]
  by simp

subsection \<open>executePrefetch\<close>

lemma executePrefetch_external: "executePrefetch e url rtype True ctx custom = ([], Inr False)"
  by (simp add: executePrefetch_def)

text \<open>
  Claim C4. With \<open>isExternal\<close> true, \<open>executePrefetch\<close> returns false at once for every
  strategy, router context and custom callback: it performs no effect at all, so it
  registers no hint and calls no callback, the custom one included.
\<close>

theorem executePrefetch_external_first:
  "executePrefetch e url rtype True ctx custom = ([], Inr False)
   \<and> hints (fst (executePrefetch e url rtype True ctx custom)) = []
   \<and> calls (fst (executePrefetch e url rtype True ctx custom)) = []"
  by (simp add: executePrefetch_external)

theorem executePrefetch_external_first_witness:
  "executePrefetch development_env ''/dashboard'' ''custom'' True
     (context_with returning_callback) (Some returning_callback) = ([], Inr False)"
  using executePrefetch_external_first
    [of development_env "''/dashboard''" "''custom''" "context_with returning_callback"
        "Some returning_callback"]
  by simp

lemma calls_append: "calls (xs @ ys) = calls xs @ calls ys"
  by (induction xs rule: calls.induct) simp_all

lemma hints_append: "hints (xs @ ys) = hints xs @ hints ys"
  by (induction xs rule: hints.induct) simp_all

lemma executePrefetch_switch:
  "\<not> (rtype = ''custom'' \<and> custom \<noteq> None) \<Longrightarrow>
   executePrefetch e url rtype False ctx custom =
     (case switch_routerType e url rtype ctx of
        (effs, Throw x) \<Rightarrow>
          (effs @ (if production e then []
                   else [ConsoleError (''Error prefetching '' @ url @ '':'') x]),
           Inr False)
      | (effs, Return b) \<Rightarrow> (effs, Inr b)
      | (effs, Break) \<Rightarrow>
          (effs @ (if production e then []
                   else [ConsoleLog (''Prefetched: '' @ url @ '' using '' @ rtype)]),
           Inr True))"
  by (cases custom; cases "rtype = ''custom''") (simp_all add: executePrefetch_def)

lemma switch_custom:
  "switch_routerType e url ''custom'' ctx = ([AppendChild (prefetch_link url)], Break)"
  by (simp add: switch_routerType_def)

text \<open>
  Claim C10. With strategy \<^verbatim>\<open>custom\<close>, no custom callback and a target that is not
  external, \<open>executePrefetch\<close> takes the default branch of the switch: it registers the
  single hint \<^verbatim>\<open>rel='prefetch'\<close>, \<^verbatim>\<open>as='document'\<close> for the target and returns true.
\<close>

theorem executePrefetch_custom_without_callback:
  "snd (executePrefetch e url ''custom'' False ctx None) = Inr True
   \<and> hints (fst (executePrefetch e url ''custom'' False ctx None))
       = [\<lparr>rel = ''prefetch'', href = url, as_attr = ''document''\<rparr>]
   \<and> calls (fst (executePrefetch e url ''custom'' False ctx None)) = []"
  by (simp add: executePrefetch_switch switch_custom prefetch_link_def)

theorem executePrefetch_custom_without_callback_witness:
  "executePrefetch development_env ''/dashboard'' ''custom'' False None None
     = ([AppendChild \<lparr>rel = ''prefetch'', href = ''/dashboard'', as_attr = ''document''\<rparr>,
         ConsoleLog ''Prefetched: /dashboard using custom''], Inr True)
   \<and> snd (executePrefetch development_env ''/dashboard'' ''custom'' False None None) = Inr True"
  using executePrefetch_custom_without_callback [of development_env "''/dashboard''" None]
  by (simp add: executePrefetch_switch switch_custom prefetch_link_def development_env_def)


lemma switch_react_router_ok:
  "URL_origin e url (location_origin e) = Inr origin \<Longrightarrow>
   switch_routerType e url ''react-router'' ctx
     = ([AppendChild (prefetch_link url), AppendChild (preconnect_link origin)], Break)"
  by (simp add: switch_routerType_def)

lemma switch_react_router_throws:
  "URL_origin e url (location_origin e) = Inl x \<Longrightarrow>
   switch_routerType e url ''react-router'' ctx = ([AppendChild (prefetch_link url)], Throw x)"
  by (simp add: switch_routerType_def)

lemma react_router_not_custom: "\<not> (''react-router'' = ''custom'' \<and> custom \<noteq> None)"
  by simp

lemma tanstack_not_custom: "\<not> (''tanstack-router'' = ''custom'' \<and> custom \<noteq> None)"
  by simp

lemma executePrefetch_react_router_ok:
  assumes "URL_origin e url (location_origin e) = Inr origin"
  shows "snd (executePrefetch e url ''react-router'' False ctx custom) = Inr True"
    and "hints (fst (executePrefetch e url ''react-router'' False ctx custom))
           = [prefetch_link url, preconnect_link origin]"
    and "calls (fst (executePrefetch e url ''react-router'' False ctx custom)) = []"
  using assms
  by (simp_all add: executePrefetch_switch [OF react_router_not_custom]
      switch_react_router_ok)

lemma executePrefetch_react_router_throws:
  assumes "URL_origin e url (location_origin e) = Inl x"
  shows "snd (executePrefetch e url ''react-router'' False ctx custom) = Inr False"
    and "hints (fst (executePrefetch e url ''react-router'' False ctx custom))
           = [prefetch_link url]"
  using assms
  by (simp_all add: executePrefetch_switch [OF react_router_not_custom]
      switch_react_router_throws)

text \<open>
  Claim C5, as stated, fails where the URL constructor rejects the target: the prefetch
  hint is registered, \<^verbatim>\<open>new URL('//', origin)\<close> throws, the exception is caught and the
  call returns false with one hint registered, not two.
\<close>

theorem executePrefetch_react_router_counterexample:
  "executePrefetch development_env ''//'' ''react-router'' False None None
     = ([AppendChild \<lparr>rel = ''prefetch'', href = ''//'', as_attr = ''document''\<rparr>,
         ConsoleError ''Error prefetching //:'' (TypeError ''Invalid URL'')],
        Inr False)"
  by (simp add: executePrefetch_def switch_routerType_def development_env_def
      example_URL_origin_def prefetch_link_def)

text \<open>
  Claim C5, amended. With strategy \<^verbatim>\<open>react-router\<close> and a target that is not external,
  \<open>executePrefetch\<close> registers the hint \<^verbatim>\<open>rel='prefetch'\<close>, \<^verbatim>\<open>as='document'\<close> for the target;
  when the target resolves against \<^verbatim>\<open>window.location.origin\<close> it also registers the hint
  \<^verbatim>\<open>rel='preconnect'\<close> for the resolved origin, two hints in all, and returns true; when
  the URL constructor throws, the exception is caught and the call returns false.
\<close>

theorem executePrefetch_react_router:
  "(URL_origin e url (location_origin e) = Inr origin \<longrightarrow>
      snd (executePrefetch e url ''react-router'' False ctx custom) = Inr True
      \<and> hints (fst (executePrefetch e url ''react-router'' False ctx custom))
          = [\<lparr>rel = ''prefetch'', href = url, as_attr = ''document''\<rparr>,
             \<lparr>rel = ''preconnect'', href = origin, as_attr = []\<rparr>]
      \<and> calls (fst (executePrefetch e url ''react-router'' False ctx custom)) = [])
   \<and> (URL_origin e url (location_origin e) = Inl x \<longrightarrow>
      snd (executePrefetch e url ''react-router'' False ctx custom) = Inr False
      \<and> hints (fst (executePrefetch e url ''react-router'' False ctx custom))
          = [\<lparr>rel = ''prefetch'', href = url, as_attr = ''document''\<rparr>])"
  using executePrefetch_react_router_ok [of e url origin ctx custom]
    executePrefetch_react_router_throws [of e url x ctx custom]
  by (simp add: prefetch_link_def preconnect_link_def)

theorem executePrefetch_react_router_witness:
  "URL_origin development_env ''/dashboard'' (location_origin development_env)
     = Inr ''http://localhost''
   \<and> snd (executePrefetch development_env ''/dashboard'' ''react-router'' False None None)
       = Inr True
   \<and> hints (fst (executePrefetch development_env ''/dashboard'' ''react-router'' False None None))
       = [\<lparr>rel = ''prefetch'', href = ''/dashboard'', as_attr = ''document''\<rparr>,
          \<lparr>rel = ''preconnect'', href = ''http://localhost'', as_attr = []\<rparr>]
   \<and> URL_origin development_env ''//'' (location_origin development_env)
       = Inl (TypeError ''Invalid URL'')
   \<and> snd (executePrefetch development_env ''//'' ''react-router'' False None None) = Inr False
   \<and> hints (fst (executePrefetch development_env ''//'' ''react-router'' False None None))
       = [\<lparr>rel = ''prefetch'', href = ''//'', as_attr = ''document''\<rparr>]"
proof -
  have ok: "URL_origin development_env ''/dashboard'' (location_origin development_env)
      = Inr ''http://localhost''"
    by (simp add: development_env_def example_URL_origin_def)
  have bad: "URL_origin development_env ''//'' (location_origin development_env)
      = Inl (TypeError ''Invalid URL'')"
    by (simp add: development_env_def example_URL_origin_def)
  from ok bad
    executePrefetch_react_router
      [of development_env "''/dashboard''" "''http://localhost''" None None "TypeError ''Invalid URL''"]
    executePrefetch_react_router
      [of development_env "''//''" "''http://localhost''" None None "TypeError ''Invalid URL''"]
  show ?thesis
    by simp
qed

lemma switch_tanstack_context:
  "context_prefetch ctx = Some f \<Longrightarrow>
   switch_routerType e url ''tanstack-router'' ctx
     = ([CallContextPrefetch url], (case f url of None \<Rightarrow> Break | Some x \<Rightarrow> Throw x))"
  by (simp add: switch_routerType_def router_prefetch_call_def)

lemma switch_tanstack_global:
  "context_prefetch ctx = None \<Longrightarrow> global_prefetch (TanStackRouter e) = Some g \<Longrightarrow>
   switch_routerType e url ''tanstack-router'' ctx
     = ([CallGlobalPrefetch url], (case g url of None \<Rightarrow> Break | Some x \<Rightarrow> Throw x))"
  by (simp add: switch_routerType_def router_prefetch_call_def)

lemma switch_tanstack_neither:
  "context_prefetch ctx = None \<Longrightarrow> global_prefetch (TanStackRouter e) = None \<Longrightarrow>
   switch_routerType e url ''tanstack-router'' ctx
     = ([ConsoleWarn ''TanStack Router prefetch: router instance not found''], Return False)"
  by (simp add: switch_routerType_def)

lemma executePrefetch_tanstack_context:
  assumes "context_prefetch ctx = Some f"
  shows "snd (executePrefetch e url ''tanstack-router'' False ctx custom) = Inr (f url = None)"
    and "hints (fst (executePrefetch e url ''tanstack-router'' False ctx custom)) = []"
    and "calls (fst (executePrefetch e url ''tanstack-router'' False ctx custom))
           = [CallContextPrefetch url]"
  using assms
  by (simp_all add: executePrefetch_switch [OF tanstack_not_custom] switch_tanstack_context
      hints_append calls_append split: option.split)

lemma executePrefetch_tanstack_global:
  assumes "context_prefetch ctx = None" and "global_prefetch (TanStackRouter e) = Some g"
  shows "snd (executePrefetch e url ''tanstack-router'' False ctx custom) = Inr (g url = None)"
    and "hints (fst (executePrefetch e url ''tanstack-router'' False ctx custom)) = []"
    and "calls (fst (executePrefetch e url ''tanstack-router'' False ctx custom))
           = [CallGlobalPrefetch url]"
  using assms
  by (simp_all add: executePrefetch_switch [OF tanstack_not_custom] switch_tanstack_global
      hints_append calls_append split: option.split)

lemma executePrefetch_tanstack_neither:
  assumes "context_prefetch ctx = None" and "global_prefetch (TanStackRouter e) = None"
  shows "executePrefetch e url ''tanstack-router'' False ctx custom
           = ([ConsoleWarn ''TanStack Router prefetch: router instance not found''], Inr False)"
  using assms
  by (simp add: executePrefetch_switch [OF tanstack_not_custom] switch_tanstack_neither)

text \<open>
  Claim C6, as stated, fails where the capability found throws: the context's
  \<^verbatim>\<open>router.prefetch\<close> is present and is called with the target, its exception is caught,
  and the call returns false, not true.
\<close>

theorem executePrefetch_tanstack_counterexample:
  "executePrefetch development_env ''/dashboard'' ''tanstack-router'' False
     (context_with throwing_callback) None
     = ([CallContextPrefetch ''/dashboard'',
         ConsoleError ''Error prefetching /dashboard:'' (Thrown ''prefetch failed'')],
        Inr False)"
  by (simp add: executePrefetch_def switch_routerType_def development_env_def
      context_with_def throwing_callback_def router_prefetch_call_def)

text \<open>
  Claim C6, amended. With strategy \<^verbatim>\<open>tanstack-router\<close> and a target that is not external,
  \<open>executePrefetch\<close> looks for \<^verbatim>\<open>routerContext.router.prefetch\<close> first and, if present,
  calls it (and nothing else) with the target, registers no hint, and returns true unless
  the call throws, in which case it returns false; if absent it does the same with
  \<^verbatim>\<open>window.TanStackRouter.router.prefetch\<close>; if neither exists it warns on the console
  and returns false.
\<close>

theorem executePrefetch_tanstack_router:
  "(context_prefetch ctx = Some f \<longrightarrow>
      snd (executePrefetch e url ''tanstack-router'' False ctx custom) = Inr (f url = None)
      \<and> hints (fst (executePrefetch e url ''tanstack-router'' False ctx custom)) = []
      \<and> calls (fst (executePrefetch e url ''tanstack-router'' False ctx custom))
          = [CallContextPrefetch url])
   \<and> (context_prefetch ctx = None \<and> global_prefetch (TanStackRouter e) = Some g \<longrightarrow>
      snd (executePrefetch e url ''tanstack-router'' False ctx custom) = Inr (g url = None)
      \<and> hints (fst (executePrefetch e url ''tanstack-router'' False ctx custom)) = []
      \<and> calls (fst (executePrefetch e url ''tanstack-router'' False ctx custom))
          = [CallGlobalPrefetch url])
   \<and> (context_prefetch ctx = None \<and> global_prefetch (TanStackRouter e) = None \<longrightarrow>
      executePrefetch e url ''tanstack-router'' False ctx custom
        = ([ConsoleWarn ''TanStack Router prefetch: router instance not found''], Inr False))"
  using executePrefetch_tanstack_context [of ctx f e url custom]
    executePrefetch_tanstack_global [of ctx e g url custom]
    executePrefetch_tanstack_neither [of ctx e url custom]
  by blast


theorem executePrefetch_tanstack_router_witness:
  "context_prefetch (context_with returning_callback) = Some returning_callback
   \<and> snd (executePrefetch development_env ''/dashboard'' ''tanstack-router'' False
            (context_with returning_callback) None) = Inr True
   \<and> calls (fst (executePrefetch development_env ''/dashboard'' ''tanstack-router'' False
            (context_with returning_callback) None)) = [CallContextPrefetch ''/dashboard'']
   \<and> context_prefetch None = None
   \<and> global_prefetch (TanStackRouter global_env) = Some returning_callback
   \<and> snd (executePrefetch global_env ''/dashboard'' ''tanstack-router'' False None None)
       = Inr True
   \<and> calls (fst (executePrefetch global_env ''/dashboard'' ''tanstack-router'' False None None))
       = [CallGlobalPrefetch ''/dashboard'']
   \<and> global_prefetch (TanStackRouter development_env) = None
   \<and> executePrefetch development_env ''/dashboard'' ''tanstack-router'' False None None
       = ([ConsoleWarn ''TanStack Router prefetch: router instance not found''], Inr False)"
proof -
  have c: "context_prefetch (context_with returning_callback) = Some returning_callback"
    by (simp add: context_with_def)
  have g: "global_prefetch (TanStackRouter global_env) = Some returning_callback"
    by (simp add: global_env_def)
  have n: "global_prefetch (TanStackRouter development_env) = None"
    by (simp add: development_env_def)
  have r: "returning_callback ''/dashboard'' = None"
    by (simp add: returning_callback_def)
  from c g n r
    executePrefetch_tanstack_router
      [of "context_with returning_callback" returning_callback development_env "''/dashboard''"
          None returning_callback]
    executePrefetch_tanstack_router
      [of None returning_callback global_env "''/dashboard''" None returning_callback]
    executePrefetch_tanstack_router
      [of None returning_callback development_env "''/dashboard''" None returning_callback]
  show ?thesis
    by simp
qed

subsection \<open>Exceptions\<close>

lemma executePrefetch_custom_throws:
  "custom = Some c \<Longrightarrow> c url = Some x \<Longrightarrow>
   executePrefetch e url ''custom'' False ctx custom = ([CallCustomPrefetch url], Inl x)"
  by (simp add: executePrefetch_def)

lemma executePrefetch_switch_returns:
  assumes "\<not> (rtype = ''custom'' \<and> custom \<noteq> None)"
  shows "\<exists>b. snd (executePrefetch e url rtype False ctx custom) = Inr b"
proof (cases "switch_routerType e url rtype ctx")
  case (Pair effs c)
  then show ?thesis
    by (cases c) (auto simp: executePrefetch_switch [OF assms])
qed

lemma executePrefetch_switch_throws:
  assumes "\<not> (rtype = ''custom'' \<and> custom \<noteq> None)"
    and "switch_routerType e url rtype ctx = (effs, Throw x)"
  shows "executePrefetch e url rtype False ctx custom
           = (effs @ (if production e then []
                      else [ConsoleError (''Error prefetching '' @ url @ '':'') x]),
              Inr False)"
  using assms(2) by (simp add: executePrefetch_switch [OF assms(1)])

text \<open>
  Claim C9, as stated, fails in a production build: the exception of a router capability
  is caught and turned into false, but nothing is logged, because the
  \<^verbatim>\<open>console.error\<close> is guarded by \<^verbatim>\<open>process.env.NODE_ENV !== 'production'\<close>.
\<close>

theorem executePrefetch_production_counterexample:
  "executePrefetch production_env ''/dashboard'' ''tanstack-router'' False
     (context_with throwing_callback) None
     = ([CallContextPrefetch ''/dashboard''], Inr False)"
  by (simp add: executePrefetch_def switch_routerType_def production_env_def
      development_env_def context_with_def throwing_callback_def router_prefetch_call_def)

text \<open>
  Claim C9, amended. What a custom active function throws leaves \<open>isActiveWithCustomFn\<close>;
  what a custom prefetch callback throws in the custom branch leaves \<open>executePrefetch\<close>.
  In every other branch no exception leaves \<open>executePrefetch\<close>: an exception thrown while
  the hints are created or a router capability is called is caught and turned into a
  false return, and it is logged with \<^verbatim>\<open>console.error\<close> unless the build is a production
  build, where nothing is logged.
\<close>

theorem exceptions_propagate_or_become_false:
  "(activeFunc pathname url = Inl x \<longrightarrow>
      isActiveWithCustomFn pathname url activeFunc = Inl x)
   \<and> (custom = Some c \<and> c url = Some x \<longrightarrow>
      executePrefetch e url ''custom'' False ctx custom = ([CallCustomPrefetch url], Inl x))
   \<and> (\<not> (rtype = ''custom'' \<and> custom \<noteq> None) \<longrightarrow>
      (\<exists>b. snd (executePrefetch e url rtype False ctx custom) = Inr b))
   \<and> (\<not> (rtype = ''custom'' \<and> custom \<noteq> None)
        \<and> switch_routerType e url rtype ctx = (effs, Throw x) \<longrightarrow>
      executePrefetch e url rtype False ctx custom
        = (effs @ (if production e then []
                   else [ConsoleError (''Error prefetching '' @ url @ '':'') x]),
           Inr False))"
  using executePrefetch_custom_throws [of custom c url x e ctx]
    executePrefetch_switch_returns [of rtype custom e url ctx]
    executePrefetch_switch_throws [of rtype custom e url ctx effs x]
  by (simp add: isActiveWithCustomFn_def)

theorem exceptions_propagate_or_become_false_witness:
  "isActiveWithCustomFn ''/home'' ''/home'' throwing_active_func
     = Inl (Thrown ''isActiveFunc failed'')
   \<and> executePrefetch development_env ''/dashboard'' ''custom'' False None
        (Some throwing_callback)
       = ([CallCustomPrefetch ''/dashboard''], Inl (Thrown ''prefetch failed''))
   \<and> switch_routerType development_env ''/dashboard'' ''tanstack-router''
        (context_with throwing_callback)
       = ([CallContextPrefetch ''/dashboard''], Throw (Thrown ''prefetch failed''))
   \<and> executePrefetch development_env ''/dashboard'' ''tanstack-router'' False
        (context_with throwing_callback) None
       = ([CallContextPrefetch ''/dashboard'',
           ConsoleError ''Error prefetching /dashboard:'' (Thrown ''prefetch failed'')],
          Inr False)"
proof -
  have a: "throwing_active_func ''/home'' ''/home'' = Inl (Thrown ''isActiveFunc failed'')"
    by (simp add: throwing_active_func_def)
  have b: "throwing_callback ''/dashboard'' = Some (Thrown ''prefetch failed'')"
    by (simp add: throwing_callback_def)
  have c: "switch_routerType development_env ''/dashboard'' ''tanstack-router''
        (context_with throwing_callback)
       = ([CallContextPrefetch ''/dashboard''], Throw (Thrown ''prefetch failed''))"
    by (simp add: switch_routerType_def context_with_def throwing_callback_def
        router_prefetch_call_def)
  have d: "\<not> production development_env"
    by (simp add: development_env_def)
  from a b
    exceptions_propagate_or_become_false
      [of throwing_active_func "''/home''" "''/home''" "Thrown ''isActiveFunc failed''"
          "Some throwing_callback" throwing_callback development_env None "''custom''" "[]"]
    exceptions_propagate_or_become_false
      [of throwing_active_func "''/dashboard''" "''/dashboard''" "Thrown ''prefetch failed''"
          "Some throwing_callback" throwing_callback development_env None "''custom''" "[]"]
  have e1: "isActiveWithCustomFn ''/home'' ''/home'' throwing_active_func
              = Inl (Thrown ''isActiveFunc failed'')"
    and e2: "executePrefetch development_env ''/dashboard'' ''custom'' False None
               (Some throwing_callback)
              = ([CallCustomPrefetch ''/dashboard''], Inl (Thrown ''prefetch failed''))"
    by simp_all
  from c d
    exceptions_propagate_or_become_false
      [of throwing_active_func "''/dashboard''" "''/dashboard''" "Thrown ''prefetch failed''"
          None throwing_callback development_env "context_with throwing_callback"
          "''tanstack-router''" "[CallContextPrefetch ''/dashboard'']"]
  have e3: "executePrefetch development_env ''/dashboard'' ''tanstack-router'' False
        (context_with throwing_callback) None
       = ([CallContextPrefetch ''/dashboard'',
           ConsoleError ''Error prefetching /dashboard:'' (Thrown ''prefetch failed'')],
          Inr False)"
    by simp
  from e1 e2 c e3 show ?thesis
    by blast
qed


subsection \<open>useIsActive\<close>

lemma useIsActive_no_pathname:
  "location opts = None \<or> location opts = Some [] \<Longrightarrow> useIsActive to opts = Inr False"
  by (auto simp: useIsActive_def)

lemma useIsActive_custom:
  "location opts = Some p \<Longrightarrow> p \<noteq> [] \<Longrightarrow> isActiveFunc opts = Some f \<Longrightarrow>
   useIsActive to opts
     = f p (case customActiveUrl opts of None \<Rightarrow> to | Some c \<Rightarrow> if c = [] then to else c)"
  by (simp add: useIsActive_def isActiveWithCustomFn_def)

lemma useIsActive_mode:
  "location opts = Some p \<Longrightarrow> p \<noteq> [] \<Longrightarrow> isActiveFunc opts = None \<Longrightarrow>
   useIsActive to opts
     = isActive p (case customActiveUrl opts of None \<Rightarrow> to | Some c \<Rightarrow> if c = [] then to else c)
         (Some (case matchMode opts of None \<Rightarrow> ''includes'' | Some m \<Rightarrow> m)) (matchPattern opts)"
  by (simp add: useIsActive_def)

text \<open>
  Claim C8, as stated, fails for a custom active URL that is supplied but empty: the
  code takes \<^verbatim>\<open>customActiveUrl || to\<close>, so the empty string gives way to \<^verbatim>\<open>to\<close>. On the
  page \<^verbatim>\<open>/home\<close>, the link to \<^verbatim>\<open>/home\<close> with \<^verbatim>\<open>customActiveUrl = ''\<close> and mode \<^verbatim>\<open>exact\<close> is
  active, while \<open>isActive\<close> with the supplied custom URL as target is false.
\<close>

theorem useIsActive_empty_custom_url_counterexample:
  "useIsActive ''/home''
     \<lparr>location = Some ''/home'', matchMode = Some ''exact'', matchPattern = None,
      customActiveUrl = Some [], isActiveFunc = None\<rparr> = Inr True
   \<and> isActive ''/home'' [] (Some ''exact'') None = Inr False"
  by (simp add: useIsActive_def isActive_def matchers_exact)

text \<open>
  Claim C8, amended. When the location or its pathname is missing or empty, the result is
  false and nothing is thrown. Otherwise the effective target is \<^verbatim>\<open>customActiveUrl\<close> if it
  is supplied and not empty, and the \<^verbatim>\<open>to\<close> prop otherwise; a custom predicate, when
  present, is applied to the pathname and the effective target and decides the result,
  whatever the mode; without one, the result is that of \<open>isActive\<close> on the pathname, the
  effective target, the mode (\<^verbatim>\<open>includes\<close> by default) and the pattern.
\<close>

theorem useIsActive_decision:
  "(location opts = None \<or> location opts = Some [] \<longrightarrow> useIsActive to opts = Inr False)
   \<and> (location opts = Some p \<and> p \<noteq> [] \<and> isActiveFunc opts = Some f
        \<and> customActiveUrl opts = Some c \<and> c \<noteq> [] \<longrightarrow>
      useIsActive to opts = f p c)
   \<and> (location opts = Some p \<and> p \<noteq> [] \<and> isActiveFunc opts = Some f
        \<and> (customActiveUrl opts = None \<or> customActiveUrl opts = Some []) \<longrightarrow>
      useIsActive to opts = f p to)
   \<and> (location opts = Some p \<and> p \<noteq> [] \<and> isActiveFunc opts = None
        \<and> customActiveUrl opts = Some c \<and> c \<noteq> [] \<longrightarrow>
      useIsActive to opts
        = isActive p c (Some (case matchMode opts of None \<Rightarrow> ''includes'' | Some m \<Rightarrow> m))
            (matchPattern opts))
   \<and> (location opts = Some p \<and> p \<noteq> [] \<and> isActiveFunc opts = None
        \<and> (customActiveUrl opts = None \<or> customActiveUrl opts = Some []) \<longrightarrow>
      useIsActive to opts
        = isActive p to (Some (case matchMode opts of None \<Rightarrow> ''includes'' | Some m \<Rightarrow> m))
            (matchPattern opts))"
proof -
  have none: "location opts = None \<or> location opts = Some [] \<longrightarrow> useIsActive to opts = Inr False"
    using useIsActive_no_pathname [of opts to] by blast
  have custom_c: "location opts = Some p \<and> p \<noteq> [] \<and> isActiveFunc opts = Some f
        \<and> customActiveUrl opts = Some c \<and> c \<noteq> [] \<longrightarrow> useIsActive to opts = f p c"
    using useIsActive_custom [of opts p f to] by auto
  have custom_to: "location opts = Some p \<and> p \<noteq> [] \<and> isActiveFunc opts = Some f
        \<and> (customActiveUrl opts = None \<or> customActiveUrl opts = Some []) \<longrightarrow>
      useIsActive to opts = f p to"
    using useIsActive_custom [of opts p f to] by auto
  have mode_c: "location opts = Some p \<and> p \<noteq> [] \<and> isActiveFunc opts = None
        \<and> customActiveUrl opts = Some c \<and> c \<noteq> [] \<longrightarrow>
      useIsActive to opts
        = isActive p c (Some (case matchMode opts of None \<Rightarrow> ''includes'' | Some m \<Rightarrow> m))
            (matchPattern opts)"
    using useIsActive_mode [of opts p to] by auto
  have mode_to: "location opts = Some p \<and> p \<noteq> [] \<and> isActiveFunc opts = None
        \<and> (customActiveUrl opts = None \<or> customActiveUrl opts = Some []) \<longrightarrow>
      useIsActive to opts
        = isActive p to (Some (case matchMode opts of None \<Rightarrow> ''includes'' | Some m \<Rightarrow> m))
            (matchPattern opts)"
    using useIsActive_mode [of opts p to] by auto
  from none custom_c custom_to mode_c mode_to show ?thesis
    by blast
qed

theorem useIsActive_decision_witness:
  "useIsActive ''/home''
     \<lparr>location = None, matchMode = Some ''exact'', matchPattern = None,
      customActiveUrl = None, isActiveFunc = Some throwing_active_func\<rparr> = Inr False
   \<and> useIsActive ''/home''
     \<lparr>location = Some ''/dashboard'', matchMode = Some ''exact'', matchPattern = None,
      customActiveUrl = Some ''/other'', isActiveFunc = Some always_active\<rparr> = Inr True
   \<and> useIsActive ''/home''
     \<lparr>location = Some ''/dashboard'', matchMode = Some ''exact'', matchPattern = None,
      customActiveUrl = None, isActiveFunc = Some always_active\<rparr> = Inr True
   \<and> useIsActive ''/home''
     \<lparr>location = Some ''/dashboard'', matchMode = Some ''exact'', matchPattern = None,
      customActiveUrl = Some ''/dashboard'', isActiveFunc = None\<rparr>
       = isActive ''/dashboard'' ''/dashboard'' (Some ''exact'') None
   \<and> useIsActive ''/home''
     \<lparr>location = Some ''/dashboard'', matchMode = None, matchPattern = None,
      customActiveUrl = None, isActiveFunc = None\<rparr>
       = isActive ''/dashboard'' ''/home'' (Some ''includes'') None"
proof -
  have a: "useIsActive ''/home''
     \<lparr>location = None, matchMode = Some ''exact'', matchPattern = None,
      customActiveUrl = None, isActiveFunc = Some throwing_active_func\<rparr> = Inr False"
    using useIsActive_decision
      [of "\<lparr>location = None, matchMode = Some ''exact'', matchPattern = None,
            customActiveUrl = None, isActiveFunc = Some throwing_active_func\<rparr>" "''/home''"]
    by simp
  have b: "useIsActive ''/home''
     \<lparr>location = Some ''/dashboard'', matchMode = Some ''exact'', matchPattern = None,
      customActiveUrl = Some ''/other'', isActiveFunc = Some always_active\<rparr> = Inr True"
    using useIsActive_decision
      [of "\<lparr>location = Some ''/dashboard'', matchMode = Some ''exact'', matchPattern = None,
            customActiveUrl = Some ''/other'', isActiveFunc = Some always_active\<rparr>" "''/home''"
          "''/dashboard''" always_active "''/other''"]
    by (simp add: always_active_def)
  have c: "useIsActive ''/home''
     \<lparr>location = Some ''/dashboard'', matchMode = Some ''exact'', matchPattern = None,
      customActiveUrl = None, isActiveFunc = Some always_active\<rparr> = Inr True"
    using useIsActive_decision
      [of "\<lparr>location = Some ''/dashboard'', matchMode = Some ''exact'', matchPattern = None,
            customActiveUrl = None, isActiveFunc = Some always_active\<rparr>" "''/home''"
          "''/dashboard''" always_active "''/other''"]
    by (simp add: always_active_def)
  have d: "useIsActive ''/home''
     \<lparr>location = Some ''/dashboard'', matchMode = Some ''exact'', matchPattern = None,
      customActiveUrl = Some ''/dashboard'', isActiveFunc = None\<rparr>
       = isActive ''/dashboard'' ''/dashboard'' (Some ''exact'') None"
    using useIsActive_decision
      [of "\<lparr>location = Some ''/dashboard'', matchMode = Some ''exact'', matchPattern = None,
            customActiveUrl = Some ''/dashboard'', isActiveFunc = None\<rparr>" "''/home''"
          "''/dashboard''" always_active "''/dashboard''"]
    by simp
  have e: "useIsActive ''/home''
     \<lparr>location = Some ''/dashboard'', matchMode = None, matchPattern = None,
      customActiveUrl = None, isActiveFunc = None\<rparr>
       = isActive ''/dashboard'' ''/home'' (Some ''includes'') None"
    using useIsActive_decision
      [of "\<lparr>location = Some ''/dashboard'', matchMode = None, matchPattern = None,
            customActiveUrl = None, isActiveFunc = None\<rparr>" "''/home''"
          "''/dashboard''" always_active "''/other''"]
    by simp
  from a b c d e show ?thesis
    by blast
qed



subsection \<open>The prefetch session\<close>

lemma session_inv_mount: "session_inv (mount n)"
  by (simp add: session_inv_def mount_def)

lemma clear_ref_pending: "session_inv s \<Longrightarrow> pending (clear_ref s) = []"
  by (auto simp: session_inv_def clear_ref_def clearTimeout_def split: option.splits list.splits)

lemma clear_ref_fields:
  "isPrefetched (clear_ref s) = isPrefetched s"
  "prefetchTimeoutRef (clear_ref s) = prefetchTimeoutRef s"
  "next_handle (clear_ref s) = next_handle s"
  "effects (clear_ref s) = effects s"
  "dispatches (clear_ref s) = dispatches s"
  by (simp_all add: clear_ref_def clearTimeout_def split: option.splits)

lemma session_inv_clear_ref: "session_inv s \<Longrightarrow> session_inv (clear_ref s)"
  using clear_ref_pending [of s]
  by (simp add: session_inv_def clear_ref_fields)

lemma handlePrefetch_guarded:
  "prefetch_guard opts captured \<Longrightarrow> handlePrefetch to opts captured s = s"
  by (simp add: handlePrefetch_def)

lemma handlePrefetch_arms:
  assumes "session_inv s" and "\<not> prefetch_guard opts captured"
  shows "pending (handlePrefetch to opts captured s)
           = [\<lparr>handle = next_handle s,
               timeout = delay_or_default (normalizePrefetchOptions (prefetch opts)),
               closure_to = to, closure_options = opts\<rparr>]"
    and "prefetchTimeoutRef (handlePrefetch to opts captured s) = Some (next_handle s)"
    and "next_handle (handlePrefetch to opts captured s) = Suc (next_handle s)"
    and "isPrefetched (handlePrefetch to opts captured s) = isPrefetched s"
    and "dispatches (handlePrefetch to opts captured s) = dispatches s"
    and "effects (handlePrefetch to opts captured s) = effects s"
  using assms clear_ref_pending [of s]
  by (simp_all add: handlePrefetch_def setTimeout_def clear_ref_fields)

lemma session_inv_handlePrefetch:
  assumes "session_inv s"
  shows "session_inv (handlePrefetch to opts captured s)"
proof (cases "prefetch_guard opts captured")
  case True
  with assms show ?thesis
    by (simp add: handlePrefetch_guarded)
next
  case False
  have "0 < next_handle s"
    using assms by (simp add: session_inv_def)
  then show ?thesis
    by (simp add: session_inv_def handlePrefetch_arms [OF assms False])
qed

lemma timer_fires_not_pending:
  "find (\<lambda>t. handle t = h) (pending s) = None \<Longrightarrow> timer_fires e h s = s"
  by (simp add: timer_fires_def)

lemma timer_fires_pending:
  "find (\<lambda>t. handle t = h) (pending s) = Some t \<Longrightarrow>
   timer_fires e h s = timer_callback e t (clearTimeout h s)"
  by (simp add: timer_fires_def)

lemma timer_callback_fields:
  "pending (timer_callback e t s) = pending s"
  "prefetchTimeoutRef (timer_callback e t s) = prefetchTimeoutRef s"
  "next_handle (timer_callback e t s) = next_handle s"
  "dispatches (timer_callback e t s) = Suc (dispatches s)"
  "effects (timer_callback e t s) = effects s @ fst (dispatch e t)"
  "isPrefetched (timer_callback e t s) \<longleftrightarrow> isPrefetched s \<or> snd (dispatch e t) = Inr True"
  by (simp_all add: timer_callback_def Let_def split: prod.splits)

lemma find_pending_single:
  assumes "session_inv s" and "find (\<lambda>t. handle t = h) (pending s) = Some t"
  shows "pending s = [t]" and "handle t = h"
  using assms by (auto simp: session_inv_def split: if_splits list.splits)

lemma timer_fires_fields:
  assumes "session_inv s" and "find (\<lambda>t. handle t = h) (pending s) = Some t"
  shows "pending (timer_fires e h s) = []"
    and "dispatches (timer_fires e h s) = Suc (dispatches s)"
    and "next_handle (timer_fires e h s) = next_handle s"
    and "isPrefetched (timer_fires e h s) \<longleftrightarrow> isPrefetched s \<or> snd (dispatch e t) = Inr True"
  using find_pending_single [OF assms]
  by (simp_all add: timer_fires_pending [OF assms(2)] timer_callback_fields clearTimeout_def)

lemma session_inv_timer_fires:
  assumes "session_inv s"
  shows "session_inv (timer_fires e h s)"
proof (cases "find (\<lambda>t. handle t = h) (pending s)")
  case None
  with assms show ?thesis
    by (simp add: timer_fires_not_pending)
next
  case (Some t)
  have "0 < next_handle s"
    using assms by (simp add: session_inv_def)
  then show ?thesis
    by (simp add: session_inv_def timer_fires_fields [OF assms Some])
qed

lemma session_inv_step: "session_inv s \<Longrightarrow> session_inv (step e ev s)"
  by (cases ev)
    (simp_all add: session_inv_handlePrefetch session_inv_timer_fires session_inv_clear_ref
      cancelPrefetch_def unmount_cleanup_def)

lemma run_Nil: "run e [] s = s"
  by (simp add: run_def)

lemma run_Cons: "run e (ev # evs) s = run e evs (step e ev s)"
  by (simp add: run_def)

lemma session_inv_run: "session_inv s \<Longrightarrow> session_inv (run e evs s)"
  by (induction evs arbitrary: s) (simp_all add: run_Nil run_Cons session_inv_step)

lemma session_inv_reachable: "session_inv (run e evs (mount n))"
  by (simp add: session_inv_run session_inv_mount)

lemma pending_at_most_one: "session_inv s \<Longrightarrow> length (pending s) \<le> 1"
  by (auto simp: session_inv_def split: list.splits)

text \<open>An event other than a start never adds a dispatch that was not pending.\<close>

lemma step_budget:
  assumes "session_inv s" and "\<not> is_start ev"
  shows "dispatches (step e ev s) + length (pending (step e ev s))
           \<le> dispatches s + length (pending s)"
proof (cases ev)
  case (HandlePrefetch to opts captured)
  with assms(2) show ?thesis by simp
next
  case CancelPrefetch
  then show ?thesis
    by (simp add: cancelPrefetch_def clear_ref_pending [OF assms(1)] clear_ref_fields)
next
  case Unmount
  then show ?thesis
    by (simp add: unmount_cleanup_def clear_ref_pending [OF assms(1)] clear_ref_fields)
next
  case (TimerFires h)
  show ?thesis
  proof (cases "find (\<lambda>t. handle t = h) (pending s)")
    case None
    with TimerFires show ?thesis
      by (simp add: timer_fires_not_pending)
  next
    case (Some t)
    with TimerFires show ?thesis
      by (simp add: timer_fires_fields [OF assms(1) Some] find_pending_single [OF assms(1) Some])
  qed
qed

lemma run_budget:
  assumes "session_inv s" and "\<forall>ev \<in> set evs. \<not> is_start ev"
  shows "dispatches (run e evs s) + length (pending (run e evs s))
           \<le> dispatches s + length (pending s)"
  using assms
proof (induction evs arbitrary: s)
  case Nil
  show ?case by (simp add: run_Nil)
next
  case (Cons ev evs)
  have "dispatches (run e evs (step e ev s)) + length (pending (run e evs (step e ev s)))
          \<le> dispatches (step e ev s) + length (pending (step e ev s))"
    using Cons.IH [of "step e ev s"] Cons.prems by (simp add: session_inv_step)
  also have "\<dots> \<le> dispatches s + length (pending s)"
    using step_budget [of s ev e] Cons.prems by simp
  finally show ?case
    by (simp add: run_Cons)
qed

lemma step_dispatches_mono: "session_inv s \<Longrightarrow> dispatches s \<le> dispatches (step e ev s)"
proof (cases ev)
  case (HandlePrefetch to opts captured)
  assume "session_inv s"
  then show ?thesis
    using HandlePrefetch
    by (cases "prefetch_guard opts captured")
      (simp_all add: handlePrefetch_guarded handlePrefetch_arms)
next
  case CancelPrefetch
  then show ?thesis by (simp add: cancelPrefetch_def clear_ref_fields)
next
  case Unmount
  then show ?thesis by (simp add: unmount_cleanup_def clear_ref_fields)
next
  case (TimerFires h)
  assume inv: "session_inv s"
  show ?thesis
  proof (cases "find (\<lambda>t. handle t = h) (pending s)")
    case None
    with TimerFires show ?thesis by (simp add: timer_fires_not_pending)
  next
    case (Some t)
    with TimerFires show ?thesis by (simp add: timer_fires_fields [OF inv Some])
  qed
qed

lemma run_dispatches_mono: "session_inv s \<Longrightarrow> dispatches s \<le> dispatches (run e evs s)"
proof (induction evs arbitrary: s)
  case Nil
  show ?case by (simp add: run_Nil)
next
  case (Cons ev evs)
  have "dispatches s \<le> dispatches (step e ev s)"
    using Cons.prems by (rule step_dispatches_mono)
  also have "\<dots> \<le> dispatches (run e evs (step e ev s))"
    using Cons.prems by (intro Cons.IH session_inv_step)
  finally show ?case by (simp add: run_Cons)
qed

text \<open>
  Once the session has prefetched and nothing is pending, no event changes it, except a
  start through a handler whose render captured \<^verbatim>\<open>isPrefetched\<close> false.
\<close>

lemma prefetched_guard: "prefetch_guard opts True"
  by (simp add: prefetch_guard_def)

lemma clear_ref_nothing_pending: "pending s = [] \<Longrightarrow> clear_ref s = s"
  by (simp add: clear_ref_def clearTimeout_def split: option.splits)

lemma prefetched_step:
  "pending s = [] \<Longrightarrow> \<not> unprefetched_start ev \<Longrightarrow> step e ev s = s"
  by (cases ev)
    (simp_all add: handlePrefetch_guarded prefetched_guard cancelPrefetch_def
      unmount_cleanup_def clear_ref_nothing_pending timer_fires_not_pending)

lemma prefetched_run:
  "pending s = [] \<Longrightarrow> \<forall>ev \<in> set evs. \<not> unprefetched_start ev \<Longrightarrow> run e evs s = s"
  by (induction evs) (simp_all add: run_Nil run_Cons prefetched_step)


lemma handlePrefetch_dispatches:
  "session_inv s \<Longrightarrow> dispatches (handlePrefetch to opts captured s) = dispatches s"
  by (cases "prefetch_guard opts captured")
    (simp_all add: handlePrefetch_guarded handlePrefetch_arms)

lemma start_twice_budget:
  assumes "session_inv s" and "\<forall>ev \<in> set evs. \<not> is_start ev"
  shows "dispatches (run e evs
            (handlePrefetch to' opts' captured' (handlePrefetch to opts captured s)))
           \<le> Suc (dispatches s)"
proof -
  let ?s1 = "handlePrefetch to opts captured s"
  let ?s2 = "handlePrefetch to' opts' captured' ?s1"
  have inv1: "session_inv ?s1"
    using assms(1) by (rule session_inv_handlePrefetch)
  have inv2: "session_inv ?s2"
    using inv1 by (rule session_inv_handlePrefetch)
  have d: "dispatches ?s2 = dispatches s"
    by (simp add: handlePrefetch_dispatches [OF inv1] handlePrefetch_dispatches [OF assms(1)])
  have "dispatches (run e evs ?s2) \<le> dispatches ?s2 + length (pending ?s2)"
    using run_budget [OF inv2 assms(2), of e] by simp
  also have "\<dots> \<le> dispatches s + 1"
    using pending_at_most_one [OF inv2] d by simp
  finally show ?thesis by simp
qed

lemma cleared_no_dispatch:
  assumes "session_inv s" and "\<forall>ev \<in> set evs. \<not> is_start ev"
  shows "dispatches (run e evs (clear_ref s)) = dispatches s"
proof -
  have inv: "session_inv (clear_ref s)"
    using assms(1) by (rule session_inv_clear_ref)
  have "dispatches (run e evs (clear_ref s))
          \<le> dispatches (clear_ref s) + length (pending (clear_ref s))"
    using run_budget [OF inv assms(2), of e] by simp
  then have "dispatches (run e evs (clear_ref s)) \<le> dispatches s"
    by (simp add: clear_ref_pending [OF assms(1)] clear_ref_fields)
  moreover have "dispatches s \<le> dispatches (run e evs (clear_ref s))"
    using run_dispatches_mono [OF inv, of e evs] by (simp add: clear_ref_fields)
  ultimately show ?thesis by simp
qed

lemma successful_dispatch_final:
  assumes "session_inv s" and "find (\<lambda>t. handle t = h) (pending s) = Some t"
    and "snd (dispatch e t) = Inr True"
  shows "isPrefetched (timer_fires e h s)"
    and "pending (timer_fires e h s) = []"
    and "dispatches (timer_fires e h s) = Suc (dispatches s)"
    and "handlePrefetch to opts (isPrefetched (timer_fires e h s)) (timer_fires e h s)
           = timer_fires e h s"
    and "\<forall>ev \<in> set evs. \<not> unprefetched_start ev \<Longrightarrow>
         run e evs (timer_fires e h s) = timer_fires e h s"
proof -
  show p: "isPrefetched (timer_fires e h s)"
    using assms(3) by (simp add: timer_fires_fields [OF assms(1,2)])
  show q: "pending (timer_fires e h s) = []"
    by (simp add: timer_fires_fields [OF assms(1,2)])
  show "dispatches (timer_fires e h s) = Suc (dispatches s)"
    by (simp add: timer_fires_fields [OF assms(1,2)])
  show "handlePrefetch to opts (isPrefetched (timer_fires e h s)) (timer_fires e h s)
          = timer_fires e h s"
    using p by (simp add: handlePrefetch_guarded prefetched_guard)
  show "run e evs (timer_fires e h s) = timer_fires e h s"
    if "\<forall>ev \<in> set evs. \<not> unprefetched_start ev"
    using q that by (rule prefetched_run)
qed

text \<open>The session of the examples after one hover on a fresh instance.\<close>

lemma hover_guard: "prefetch_guard hover_options captured = captured"
  by (simp add: prefetch_guard_def hover_options_def normalizePrefetchOptions_def spread_def
      defaultPrefetchOptions_def no_properties_def)

lemma hover_delay: "delay_or_default (normalizePrefetchOptions (prefetch hover_options)) = 200"
  by (simp add: hover_options_def normalizePrefetchOptions_def spread_def
      defaultPrefetchOptions_def no_properties_def delay_or_default_def)

lemma example_started:
  "run e [HandlePrefetch ''/dashboard'' hover_options False] (mount 0)
     = \<lparr>isPrefetched = False, prefetchTimeoutRef = Some 1, next_handle = 2,
        pending = [\<lparr>handle = 1, timeout = 200, closure_to = ''/dashboard'',
                    closure_options = hover_options\<rparr>],
        effects = [], dispatches = 0\<rparr>"
  by (simp add: run_def handlePrefetch_def hover_guard hover_delay mount_def
      clear_ref_def setTimeout_def)

lemma example_dispatch:
  "dispatch development_env
     \<lparr>handle = h, timeout = ms, closure_to = ''/dashboard'', closure_options = hover_options\<rparr>
     = ([AppendChild \<lparr>rel = ''prefetch'', href = ''/dashboard'', as_attr = ''document''\<rparr>,
         AppendChild \<lparr>rel = ''preconnect'', href = ''http://localhost'', as_attr = []\<rparr>,
         ConsoleLog ''Prefetched: /dashboard using react-router''], Inr True)"
  by (simp add: dispatch_def hover_options_def normalizePrefetchOptions_def spread_def
      defaultPrefetchOptions_def no_properties_def routerType_or_default_def
      executePrefetch_def switch_routerType_def development_env_def example_URL_origin_def
      prefetch_link_def preconnect_link_def)

text \<open>The same session after its timer has fired: one dispatch, which succeeded.\<close>

lemma example_fired:
  "isPrefetched (run development_env
      [HandlePrefetch ''/dashboard'' hover_options False, TimerFires 1] (mount 0))"
  "pending (run development_env
      [HandlePrefetch ''/dashboard'' hover_options False, TimerFires 1] (mount 0)) = []"
  "dispatches (run development_env
      [HandlePrefetch ''/dashboard'' hover_options False, TimerFires 1] (mount 0)) = 1"
  "next_handle (run development_env
      [HandlePrefetch ''/dashboard'' hover_options False, TimerFires 1] (mount 0)) = 2"
proof -
  let ?t = "\<lparr>handle = 1, timeout = 200, closure_to = ''/dashboard'',
              closure_options = hover_options\<rparr>"
  let ?s = "run development_env [HandlePrefetch ''/dashboard'' hover_options False] (mount 0)"
  have split: "run development_env
      [HandlePrefetch ''/dashboard'' hover_options False, TimerFires 1] (mount 0)
      = timer_fires development_env 1 ?s"
    by (simp add: run_def)
  have inv: "session_inv ?s"
    by (rule session_inv_reachable)
  have f: "find (\<lambda>t. handle t = 1) (pending ?s) = Some ?t"
    by (simp add: example_started)
  have ok: "snd (dispatch development_env ?t) = Inr True"
    by (simp add: example_dispatch)
  have z: "dispatches ?s = 0" "next_handle ?s = 2"
    by (simp_all add: example_started)
  note fired = timer_fires_fields [OF inv f]
  have ip: "isPrefetched (timer_fires development_env 1 ?s)"
    using fired(4) ok by blast
  have pe: "pending (timer_fires development_env 1 ?s) = []"
    by (rule fired(1))
  have di: "dispatches (timer_fires development_env 1 ?s) = 1"
    using fired(2) z(1) by simp
  have nh: "next_handle (timer_fires development_env 1 ?s) = 2"
    using fired(3) z(2) by simp
  show "isPrefetched (run development_env
      [HandlePrefetch ''/dashboard'' hover_options False, TimerFires 1] (mount 0))"
    unfolding split by (rule ip)
  show "pending (run development_env
      [HandlePrefetch ''/dashboard'' hover_options False, TimerFires 1] (mount 0)) = []"
    unfolding split by (rule pe)
  show "dispatches (run development_env
      [HandlePrefetch ''/dashboard'' hover_options False, TimerFires 1] (mount 0)) = 1"
    unfolding split by (rule di)
  show "next_handle (run development_env
      [HandlePrefetch ''/dashboard'' hover_options False, TimerFires 1] (mount 0)) = 2"
    unfolding split by (rule nh)
qed

text \<open>
  Claim C2, as stated, fails for a handler kept from a render that preceded the dispatch.
  \<open>handlePrefetch\<close> tests the \<^verbatim>\<open>isPrefetched\<close> constant its render captured; after the
  first hover's timer has fired and the dispatch has succeeded, the state is true, but the
  handler of the first render still holds false: called again it passes the guard, arms
  timer 2, and that timer dispatches a second time.
\<close>

theorem handlePrefetch_stale_handler_counterexample:
  "isPrefetched (run development_env
      [HandlePrefetch ''/dashboard'' hover_options False, TimerFires 1] (mount 0))
   \<and> dispatches (run development_env
      [HandlePrefetch ''/dashboard'' hover_options False, TimerFires 1] (mount 0)) = 1
   \<and> pending (handlePrefetch ''/dashboard'' hover_options False
        (run development_env
          [HandlePrefetch ''/dashboard'' hover_options False, TimerFires 1] (mount 0)))
       = [\<lparr>handle = 2, timeout = 200, closure_to = ''/dashboard'',
           closure_options = hover_options\<rparr>]
   \<and> dispatches (run development_env
      [HandlePrefetch ''/dashboard'' hover_options False, TimerFires 1,
       HandlePrefetch ''/dashboard'' hover_options False, TimerFires 2] (mount 0)) = 2"
proof -
  let ?t2 = "\<lparr>handle = 2, timeout = 200, closure_to = ''/dashboard'',
               closure_options = hover_options\<rparr>"
  let ?s2 = "run development_env
      [HandlePrefetch ''/dashboard'' hover_options False, TimerFires 1] (mount 0)"
  let ?s3 = "handlePrefetch ''/dashboard'' hover_options False ?s2"
  have inv2: "session_inv ?s2"
    by (rule session_inv_reachable)
  have g: "\<not> prefetch_guard hover_options False"
    by (simp add: hover_guard)
  have p3: "pending ?s3 = [?t2]"
    unfolding handlePrefetch_arms(1) [OF inv2 g] hover_delay example_fired(4) by (rule refl)
  have d3: "dispatches ?s3 = 1"
    unfolding handlePrefetch_arms(5) [OF inv2 g] by (rule example_fired(3))
  have inv3: "session_inv ?s3"
    using inv2 by (rule session_inv_handlePrefetch)
  have f: "find (\<lambda>t. handle t = 2) (pending ?s3) = Some ?t2"
    unfolding p3 by simp
  have split: "run development_env
      [HandlePrefetch ''/dashboard'' hover_options False, TimerFires 1,
       HandlePrefetch ''/dashboard'' hover_options False, TimerFires 2] (mount 0)
      = timer_fires development_env 2 ?s3"
    by (simp add: run_def)
  have d4: "dispatches (timer_fires development_env 2 ?s3) = 2"
    using d3 timer_fires_fields(2) [OF inv3 f] by simp
  from example_fired(1) example_fired(3) p3 d4 show ?thesis
    unfolding split by blast
qed

text \<open>
  Claim C2, amended. \<open>handlePrefetch\<close> leaves the session as it is, arming no timer,
  whenever prefetching is not enabled, the target is external, redirection is off, the
  link is disabled, or the \<^verbatim>\<open>isPrefetched\<close> value captured by the handler's render is
  true. Once a dispatch of a session has succeeded, the state is true and nothing is
  pending; every later start through a handler of a render that follows the dispatch, and
  every later run of events whose starts all come from such renders, leaves the session
  unchanged: no new timer and no further dispatch.
\<close>

theorem handlePrefetch_captured_guard_is_noop:
  "(read (enabled (normalizePrefetchOptions (prefetch opts))) \<noteq> Some True \<or> isExternal opts
      \<or> \<not> redirection opts \<or> disabled opts \<or> captured \<longrightarrow>
      handlePrefetch to opts captured s = s)
   \<and> (s = run e evs (mount n) \<and> find (\<lambda>t. handle t = h) (pending s) = Some t
        \<and> snd (dispatch e t) = Inr True \<longrightarrow>
      isPrefetched (timer_fires e h s)
      \<and> pending (timer_fires e h s) = []
      \<and> dispatches (timer_fires e h s) = Suc (dispatches s)
      \<and> handlePrefetch to' opts' (isPrefetched (timer_fires e h s)) (timer_fires e h s)
          = timer_fires e h s
      \<and> ((\<forall>ev \<in> set evs'. \<not> unprefetched_start ev) \<longrightarrow>
           run e evs' (timer_fires e h s) = timer_fires e h s))"
proof -
  have guard: "read (enabled (normalizePrefetchOptions (prefetch opts))) \<noteq> Some True
      \<or> isExternal opts \<or> \<not> redirection opts \<or> disabled opts \<or> captured \<longrightarrow>
      handlePrefetch to opts captured s = s"
    using handlePrefetch_guarded [of opts captured to s] by (auto simp: prefetch_guard_def)
  have final: "s = run e evs (mount n) \<and> find (\<lambda>t. handle t = h) (pending s) = Some t
        \<and> snd (dispatch e t) = Inr True \<longrightarrow>
      isPrefetched (timer_fires e h s)
      \<and> pending (timer_fires e h s) = []
      \<and> dispatches (timer_fires e h s) = Suc (dispatches s)
      \<and> handlePrefetch to' opts' (isPrefetched (timer_fires e h s)) (timer_fires e h s)
          = timer_fires e h s
      \<and> ((\<forall>ev \<in> set evs'. \<not> unprefetched_start ev) \<longrightarrow>
           run e evs' (timer_fires e h s) = timer_fires e h s)"
  proof (intro impI, elim conjE)
    assume reach: "s = run e evs (mount n)"
      and pend: "find (\<lambda>t. handle t = h) (pending s) = Some t"
      and ok: "snd (dispatch e t) = Inr True"
    have inv: "session_inv s"
      using reach by (simp add: session_inv_reachable)
    show "isPrefetched (timer_fires e h s)
      \<and> pending (timer_fires e h s) = []
      \<and> dispatches (timer_fires e h s) = Suc (dispatches s)
      \<and> handlePrefetch to' opts' (isPrefetched (timer_fires e h s)) (timer_fires e h s)
          = timer_fires e h s
      \<and> ((\<forall>ev \<in> set evs'. \<not> unprefetched_start ev) \<longrightarrow>
           run e evs' (timer_fires e h s) = timer_fires e h s)"
      using successful_dispatch_final [OF inv pend ok] by simp
  qed
  from guard final show ?thesis
    by blast
qed

theorem handlePrefetch_captured_guard_is_noop_witness:
  "handlePrefetch ''/dashboard'' disabled_options False (mount 0) = mount 0
   \<and> isPrefetched (timer_fires development_env 1
        (run development_env [HandlePrefetch ''/dashboard'' hover_options False] (mount 0)))
   \<and> handlePrefetch ''/dashboard'' hover_options True
        (timer_fires development_env 1
          (run development_env [HandlePrefetch ''/dashboard'' hover_options False] (mount 0)))
       = timer_fires development_env 1
          (run development_env [HandlePrefetch ''/dashboard'' hover_options False] (mount 0))
   \<and> run development_env [HandlePrefetch ''/dashboard'' hover_options True, TimerFires 2,
          CancelPrefetch]
        (timer_fires development_env 1
          (run development_env [HandlePrefetch ''/dashboard'' hover_options False] (mount 0)))
       = timer_fires development_env 1
          (run development_env [HandlePrefetch ''/dashboard'' hover_options False] (mount 0))
   \<and> dispatches (timer_fires development_env 1
        (run development_env [HandlePrefetch ''/dashboard'' hover_options False] (mount 0)))
       = 1"
proof -
  let ?t = "\<lparr>handle = 1, timeout = 200, closure_to = ''/dashboard'',
              closure_options = hover_options\<rparr>"
  let ?s = "run development_env [HandlePrefetch ''/dashboard'' hover_options False] (mount 0)"
  let ?evs = "[HandlePrefetch ''/dashboard'' hover_options True, TimerFires 2, CancelPrefetch]"
  have d: "disabled disabled_options"
    by (simp add: disabled_options_def)
  have f: "find (\<lambda>t. handle t = 1) (pending ?s) = Some ?t"
    by (simp add: example_started)
  have ok: "snd (dispatch development_env ?t) = Inr True"
    by (simp add: example_dispatch)
  have z: "dispatches ?s = 0"
    by (simp add: example_started)
  have fresh: "\<forall>ev \<in> set ?evs. \<not> unprefetched_start ev"
    by simp
  have a: "handlePrefetch ''/dashboard'' disabled_options False (mount 0) = mount 0"
    using d
      handlePrefetch_captured_guard_is_noop
        [of disabled_options False "''/dashboard''" "mount 0"]
    by blast
  have b: "isPrefetched (timer_fires development_env 1 ?s)
      \<and> dispatches (timer_fires development_env 1 ?s) = Suc (dispatches ?s)
      \<and> handlePrefetch ''/dashboard'' hover_options
           (isPrefetched (timer_fires development_env 1 ?s)) (timer_fires development_env 1 ?s)
          = timer_fires development_env 1 ?s
      \<and> run development_env ?evs (timer_fires development_env 1 ?s)
          = timer_fires development_env 1 ?s"
    using f ok fresh
      handlePrefetch_captured_guard_is_noop
        [of hover_options False "''/dashboard''" ?s development_env
            "[HandlePrefetch ''/dashboard'' hover_options False]" 0 1 ?t "''/dashboard''"
            hover_options ?evs]
    by blast
  from b have ip: "isPrefetched (timer_fires development_env 1 ?s)"
    by blast
  then have tr: "isPrefetched (timer_fires development_env 1 ?s) = True"
    by simp
  from b have "handlePrefetch ''/dashboard'' hover_options
           (isPrefetched (timer_fires development_env 1 ?s)) (timer_fires development_env 1 ?s)
          = timer_fires development_env 1 ?s"
    by blast
  then have c: "handlePrefetch ''/dashboard'' hover_options True
        (timer_fires development_env 1 ?s) = timer_fires development_env 1 ?s"
    unfolding tr .
  from b have rn: "run development_env ?evs (timer_fires development_env 1 ?s)
          = timer_fires development_env 1 ?s"
    by blast
  from b z have di: "dispatches (timer_fires development_env 1 ?s) = 1"
    by simp
  from a ip c rn di show ?thesis
    by blast
qed

text \<open>
  Claim C3. In every session, at any moment, at most one timer is pending. A start that
  passes the guard clears the timer the ref points to before it arms the new one, so the
  new timer is the only one pending; two starts in a row followed by any events other
  than starts add at most one dispatch. A cancel, like the unmount cleanup, leaves
  nothing pending, and any events other than starts that follow it add no dispatch.
  This holds whatever \<^verbatim>\<open>isPrefetched\<close> values the handlers called have captured.
\<close>

theorem at_most_one_pending_timer:
  assumes "s = run e evs (mount n)"
  shows "length (pending s) \<le> 1
   \<and> (\<not> prefetch_guard opts captured \<longrightarrow>
        pending (handlePrefetch to opts captured s)
          = [\<lparr>handle = next_handle s,
              timeout = delay_or_default (normalizePrefetchOptions (prefetch opts)),
              closure_to = to, closure_options = opts\<rparr>])
   \<and> ((\<forall>ev \<in> set evs'. \<not> is_start ev) \<longrightarrow>
        dispatches (run e evs'
            (handlePrefetch to' opts' captured' (handlePrefetch to opts captured s)))
          \<le> Suc (dispatches s))
   \<and> pending (cancelPrefetch s) = []
   \<and> pending (unmount_cleanup s) = []
   \<and> ((\<forall>ev \<in> set evs'. \<not> is_start ev) \<longrightarrow>
        dispatches (run e evs' (cancelPrefetch s)) = dispatches s
        \<and> dispatches (run e evs' (unmount_cleanup s)) = dispatches s)"
proof -
  have inv: "session_inv s"
    using assms by (simp add: session_inv_reachable)
  have one: "length (pending s) \<le> 1"
    using inv by (rule pending_at_most_one)
  have arm: "\<not> prefetch_guard opts captured \<longrightarrow>
        pending (handlePrefetch to opts captured s)
          = [\<lparr>handle = next_handle s,
              timeout = delay_or_default (normalizePrefetchOptions (prefetch opts)),
              closure_to = to, closure_options = opts\<rparr>]"
    using handlePrefetch_arms(1) [OF inv] by blast
  have twice: "(\<forall>ev \<in> set evs'. \<not> is_start ev) \<longrightarrow>
        dispatches (run e evs'
            (handlePrefetch to' opts' captured' (handlePrefetch to opts captured s)))
          \<le> Suc (dispatches s)"
    using start_twice_budget [OF inv] by blast
  have cancel: "pending (cancelPrefetch s) = []" "pending (unmount_cleanup s) = []"
    using clear_ref_pending [OF inv] by (simp_all add: cancelPrefetch_def unmount_cleanup_def)
  have none: "(\<forall>ev \<in> set evs'. \<not> is_start ev) \<longrightarrow>
        dispatches (run e evs' (cancelPrefetch s)) = dispatches s
        \<and> dispatches (run e evs' (unmount_cleanup s)) = dispatches s"
    using cleared_no_dispatch [OF inv, of evs' e]
    by (simp add: cancelPrefetch_def unmount_cleanup_def)
  from one arm twice cancel none show ?thesis
    by blast
qed

theorem at_most_one_pending_timer_witness:
  "length (pending
      (run development_env [HandlePrefetch ''/dashboard'' hover_options False] (mount 0)))
     \<le> 1
   \<and> pending (handlePrefetch ''/dashboard'' hover_options False
        (run development_env [HandlePrefetch ''/dashboard'' hover_options False] (mount 0)))
       = [\<lparr>handle = 2, timeout = 200, closure_to = ''/dashboard'',
           closure_options = hover_options\<rparr>]
   \<and> dispatches (run development_env [TimerFires 1, TimerFires 2, TimerFires 3]
        (handlePrefetch ''/dashboard'' hover_options False
          (handlePrefetch ''/dashboard'' hover_options False
            (run development_env [HandlePrefetch ''/dashboard'' hover_options False]
              (mount 0)))))
       \<le> 1
   \<and> dispatches (run development_env [TimerFires 1, Unmount]
        (cancelPrefetch
          (run development_env [HandlePrefetch ''/dashboard'' hover_options False]
            (mount 0)))) = 0"
proof -
  let ?s = "run development_env [HandlePrefetch ''/dashboard'' hover_options False] (mount 0)"
  note inst = at_most_one_pending_timer
      [of ?s development_env "[HandlePrefetch ''/dashboard'' hover_options False]" 0
          hover_options False "''/dashboard''" _ "''/dashboard''" hover_options False, OF refl]
  have g: "\<not> prefetch_guard hover_options False"
    by (simp add: hover_guard)
  have n: "next_handle ?s = 2" and z: "dispatches ?s = 0"
    by (simp_all add: example_started)
  have ev1: "\<forall>ev \<in> set [TimerFires 1, TimerFires 2, TimerFires 3]. \<not> is_start ev"
    by simp
  have ev2: "\<forall>ev \<in> set [TimerFires 1, Unmount]. \<not> is_start ev"
    by simp
  have a: "length (pending ?s) \<le> 1"
    using inst [of "[]"] by blast
  have b: "pending (handlePrefetch ''/dashboard'' hover_options False ?s)
       = [\<lparr>handle = 2, timeout = 200, closure_to = ''/dashboard'',
           closure_options = hover_options\<rparr>]"
    using inst [of "[]"] g hover_delay n by simp
  have c: "dispatches (run development_env [TimerFires 1, TimerFires 2, TimerFires 3]
        (handlePrefetch ''/dashboard'' hover_options False
          (handlePrefetch ''/dashboard'' hover_options False ?s))) \<le> 1"
    using inst [of "[TimerFires 1, TimerFires 2, TimerFires 3]"] ev1 z by simp
  have e: "dispatches (run development_env [TimerFires 1, Unmount] (cancelPrefetch ?s)) = 0"
    using inst [of "[TimerFires 1, Unmount]"] ev2 z by simp
  from a b c e show ?thesis
    by blast
qed

end
